theory Spec2Isabelle
  imports Main "HOL-Library.Sublist"
begin

section \<open>JavaScript values\<close>

text \<open>
  The values that cross the bridge are JSON documents plus the two things JSON does not
  have: \<open>undefined\<close> and error objects. \<open>Err name message\<close> is an \<open>Error\<close> instance
  (\<open>Error\<close>, \<open>TypeError\<close>, \<open>SyntaxError\<close>, \<open>ReferenceError\<close>) with no property added to
  it. The runner never computes with a number it is given, it only prints it: \<open>Num t\<close> is
  the number whose decimal text, as \<open>String\<close> gives it, is \<open>t\<close> (so zero is \<open>Num ''0''\<close>, also
  when it was written \<open>-0\<close> or \<open>0.0\<close>). \<open>Obj kvs\<close> is a plain object with its own properties
  in order, each key once. Strings are lists of code units below 256. \<open>NaN\<close> and the
  infinities, functions, symbols, objects with accessors and cyclic objects are outside
  the value universe.
\<close>

datatype jsval =
    Undefined
  | Null
  | Bool bool
  | Num string
  | Str string
  | Arr "jsval list"
  | Obj "(string \<times> jsval) list"
  | Err string string

fun lookup :: "(string \<times> jsval) list \<Rightarrow> string \<Rightarrow> jsval" where
  "lookup [] p = Undefined"
| "lookup ((k, v) # kvs) p = (if k = p then v else lookup kvs p)"

definition nullish :: "jsval \<Rightarrow> bool" where
  "nullish v = (v = Undefined \<or> v = Null)"

definition apostrophe :: char where
  "apostrophe = CHR 0x27"

text \<open>The \<open>TypeError\<close> V8 raises for \<open>v.p\<close> when \<open>v\<close> is \<open>undefined\<close> or \<open>null\<close>.\<close>

definition cannot_read :: "jsval \<Rightarrow> string \<Rightarrow> jsval" where
  "cannot_read v p =
     Err ''TypeError''
       (''Cannot read properties of '' @ (if v = Null then ''null'' else ''undefined'')
        @ '' (reading '' @ [apostrophe] @ p @ [apostrophe] @ '')'')"

text \<open>
  Property read \<open>v.p\<close>: \<open>Inl\<close> is the exception thrown, \<open>Inr\<close> the value. The property
  names the runner reads (\<open>id\<close>, \<open>method\<close>, \<open>params\<close>, \<open>keyword\<close>, \<open>page\<close>, \<open>limit\<close>,
  \<open>source\<close>, \<open>options\<close>, \<open>musicItem\<close>, \<open>albumId\<close>, \<open>artistId\<close>, \<open>quality\<close>, \<open>name\<close>,
  \<open>message\<close>, \<open>stack\<close>) are not properties of primitives or arrays, nor inherited by
  plain objects, so those read as \<open>undefined\<close>. The \<open>stack\<close> of an error object is a string
  the model does not hold; it is read for the log only, and it is read as \<open>undefined\<close>
  here, which converts to a string just as well.
\<close>

fun get_prop :: "jsval \<Rightarrow> string \<Rightarrow> jsval + jsval" where
  "get_prop Undefined p = Inl (cannot_read Undefined p)"
| "get_prop Null p = Inl (cannot_read Null p)"
| "get_prop (Obj kvs) p = Inr (lookup kvs p)"
| "get_prop (Err n m) p = Inr (if p = ''message'' then Str m else if p = ''name'' then Str n else Undefined)"
| "get_prop (Bool b) p = Inr Undefined"
| "get_prop (Num t) p = Inr Undefined"
| "get_prop (Str s) p = Inr Undefined"
| "get_prop (Arr xs) p = Inr Undefined"

fun truthy :: "jsval \<Rightarrow> bool" where
  "truthy Undefined = False"
| "truthy Null = False"
| "truthy (Bool b) = b"
| "truthy (Num t) = (t \<noteq> ''0'')"
| "truthy (Str s) = (s \<noteq> [])"
| "truthy (Arr xs) = True"
| "truthy (Obj kvs) = True"
| "truthy (Err n m) = True"

text \<open>A parameter default \<open>(p = d)\<close> applies when the argument is \<open>undefined\<close> only.\<close>

definition dflt :: "jsval \<Rightarrow> jsval \<Rightarrow> jsval" where
  "dflt d v = (if v = Undefined then d else v)"

text \<open>\<open>a || b\<close>.\<close>

definition or_else :: "jsval \<Rightarrow> jsval \<Rightarrow> jsval" where
  "or_else a b = (if truthy a then a else b)"

text \<open>A property read that is known not to throw.\<close>

definition field :: "jsval \<Rightarrow> string \<Rightarrow> jsval" where
  "field v p = (case get_prop v p of Inl e \<Rightarrow> Undefined | Inr x \<Rightarrow> x)"

text \<open>\<open>v?.p\<close>.\<close>

definition optional :: "jsval \<Rightarrow> string \<Rightarrow> jsval" where
  "optional v p = (if nullish v then Undefined else field v p)"

subsection \<open>Conversion to string and serialisation\<close>

fun join :: "string \<Rightarrow> string list \<Rightarrow> string" where
  "join sep [] = []"
| "join sep [x] = x"
| "join sep (x # y # ys) = x @ sep @ join sep (y # ys)"

text \<open>The results of a sequence of steps done left to right, up to the first that throws.\<close>

fun collect :: "('e + 'a) list \<Rightarrow> 'e + 'a list" where
  "collect [] = Inr []"
| "collect (Inl e # rs) = Inl e"
| "collect (Inr a # rs) = (case collect rs of Inl e \<Rightarrow> Inl e | Inr as \<Rightarrow> Inr (a # as))"

definition cannot_convert :: jsval where
  "cannot_convert = Err ''TypeError'' ''Cannot convert object to primitive value''"

text \<open>
  The conversion to string that a template literal \<open>`${v}`\<close> applies to its substitution;
  \<open>Inl\<close> is the exception it throws. A plain object is converted by the first of its
  \<open>toString\<close> and \<open>valueOf\<close> that is callable and returns a primitive. Both are inherited
  from \<open>Object.prototype\<close>, where \<open>toString\<close> gives \<open>[object Object]\<close> and \<open>valueOf\<close> gives
  the object itself; an own property \<open>toString\<close> hides the inherited one, and since no
  value of the universe is callable, the conversion then finds nothing and throws a
  \<open>TypeError\<close>. An array is converted by joining the conversions of its elements, with the
  empty string for \<open>undefined\<close> and \<open>null\<close>.
\<close>

fun to_str :: "jsval \<Rightarrow> jsval + string" where
  "to_str Undefined = Inr ''undefined''"
| "to_str Null = Inr ''null''"
| "to_str (Bool b) = Inr (if b then ''true'' else ''false'')"
| "to_str (Num t) = Inr t"
| "to_str (Str s) = Inr s"
| "to_str (Arr xs) =
     (case collect (map (\<lambda>x. if nullish x then Inr [] else to_str x) xs) of
        Inl type_error \<Rightarrow> Inl type_error
      | Inr ts \<Rightarrow> Inr (join '','' ts))"
| "to_str (Obj kvs) =
     (if ''toString'' \<in> set (map fst kvs) then Inl cannot_convert else Inr ''[object Object]'')"
| "to_str (Err n m) = Inr (if m = [] then n else if n = [] then m else n @ '': '' @ m)"

text \<open>
  A template literal converts its substitutions left to right; \<open>Inl\<close> is the exception
  that building the string throws, \<open>Inr\<close> the texts of the substitutions.
\<close>

definition template :: "jsval list \<Rightarrow> jsval + string list" where
  "template vs = collect (map to_str vs)"

text \<open>\<open>`${v.p}`\<close>: the property read, then the conversion.\<close>

definition property_text :: "jsval \<Rightarrow> string \<Rightarrow> jsval + string" where
  "property_text v p = (case get_prop v p of Inl type_error \<Rightarrow> Inl type_error | Inr x \<Rightarrow> to_str x)"

definition hex_char :: "nat \<Rightarrow> char" where
  "hex_char d = (if d < 10 then char_of (48 + d) else char_of (87 + d))"

text \<open>The escapes \<open>JSON.stringify\<close> applies inside a string.\<close>

definition escape_char :: "char \<Rightarrow> string" where
  "escape_char c =
     (if c = CHR 0x22 then [CHR 0x5C, CHR 0x22]
      else if c = CHR 0x5C then [CHR 0x5C, CHR 0x5C]
      else if c = CHR 0x08 then [CHR 0x5C, CHR ''b'']
      else if c = CHR 0x0C then [CHR 0x5C, CHR ''f'']
      else if c = CHR 0x0A then [CHR 0x5C, CHR ''n'']
      else if c = CHR 0x0D then [CHR 0x5C, CHR ''r'']
      else if c = CHR 0x09 then [CHR 0x5C, CHR ''t'']
      else if of_char c < (32 :: nat)
        then [CHR 0x5C, CHR ''u'', CHR ''0'', CHR ''0'',
              hex_char (of_char c div 16), hex_char (of_char c mod 16)]
      else [c])"

definition quoted :: "string \<Rightarrow> string" where
  "quoted s = [CHR 0x22] @ concat (map escape_char s) @ [CHR 0x22]"

text \<open>
  \<open>JSON.stringify(v)\<close>: \<open>None\<close> is its result \<open>undefined\<close>. A property whose value is
  \<open>undefined\<close> is left out of an object, an \<open>undefined\<close> array element is written
  \<open>null\<close>, and an error object has no enumerable property.
\<close>

fun stringify :: "jsval \<Rightarrow> string option" where
  "stringify Undefined = None"
| "stringify Null = Some ''null''"
| "stringify (Bool b) = Some (if b then ''true'' else ''false'')"
| "stringify (Num t) = Some t"
| "stringify (Str s) = Some (quoted s)"
| "stringify (Arr xs) =
     Some (''['' @ join '','' (map (\<lambda>x. case stringify x of None \<Rightarrow> ''null'' | Some t \<Rightarrow> t) xs) @ '']'')"
| "stringify (Obj kvs) =
     Some (''{'' @ join '',''
        (concat (map (\<lambda>kv. case stringify (snd kv) of None \<Rightarrow> []
                                | Some t \<Rightarrow> [quoted (fst kv) @ '':'' @ t]) kvs)) @ ''}'')"
| "stringify (Err n m) = Some ''{}''"

lemma stringify_None [simp]: "stringify v = None \<longleftrightarrow> v = Undefined"
  by (cases v) simp_all


section \<open>The event registry\<close>

text \<open>
  \<open>events\<close> is an object from event name to an array of callbacks. Callbacks are
  closures, so they are named by an identifier and their bodies are given separately.
  An array is created by \<open>on\<close> and never replaced, so an event name stands for one array
  object throughout. Event names are taken not to be names inherited from
  \<open>Object.prototype\<close>.
\<close>

type_synonym hid = nat

type_synonym registry = "string \<Rightarrow> hid list option"

text \<open>\<open>xs.indexOf(x)\<close>, with \<open>-1\<close> for absent.\<close>

fun indexOf :: "'a list \<Rightarrow> 'a \<Rightarrow> int" where
  "indexOf [] x = - 1"
| "indexOf (y # ys) x =
     (if y = x then 0 else (let i = indexOf ys x in if i = - 1 then - 1 else i + 1))"

text \<open>\<open>xs.splice(i, 1)\<close> for an index \<open>i\<close> in range.\<close>

definition splice1 :: "'a list \<Rightarrow> nat \<Rightarrow> 'a list" where
  "splice1 xs i = take i xs @ drop (Suc i) xs"

definition on :: "string \<Rightarrow> hid \<Rightarrow> registry \<Rightarrow> registry" where
  "on event callback events =
     (case events event of
        None \<Rightarrow> events(event \<mapsto> [callback])
      | Some hs \<Rightarrow> events(event \<mapsto> hs @ [callback]))"

text \<open>
  There is no unregister primitive. A callback removes itself the way the one-shot
  listeners of the variant file do (\<open>searchHandler\<close>, \<open>mediaSourceHandler\<close>):
  \<^verbatim>\<open>if (events[E]) { const index = events[E].indexOf(h);
                   if (index > -1) events[E].splice(index, 1); }\<close>
\<close>

definition remove_listener :: "string \<Rightarrow> hid \<Rightarrow> registry \<Rightarrow> registry" where
  "remove_listener event callback events =
     (case events event of
        None \<Rightarrow> events
      | Some hs \<Rightarrow>
          (let index = indexOf hs callback
           in if index > - 1 then events(event \<mapsto> splice1 hs (nat index)) else events))"

text \<open>
  What the body of a callback does, as far as the registry can see it: it registers and
  removes listeners, in some order, and then returns or throws.
\<close>

datatype effect = Register string hid | Unregister string hid

record body =
  effects :: "effect list"
  throws :: "jsval option"

type_synonym listeners = "hid \<Rightarrow> jsval \<Rightarrow> body"

fun apply_effect :: "registry \<Rightarrow> effect \<Rightarrow> registry" where
  "apply_effect events (Register e h) = on e h events"
| "apply_effect events (Unregister e h) = remove_listener e h events"

text \<open>
  The state an emission works on: the registry, the callbacks invoked so far, and the
  lines \<open>console.error\<close> has printed (event name and error).
\<close>

record emission =
  registry :: registry
  invoked :: "hid list"
  console_error :: "(string \<times> jsval) list"

text \<open>The arrow function passed to \<open>forEach\<close>: \<open>try { callback(data) } catch (error) { console.error(...) }\<close>.\<close>

definition invoke :: "listeners \<Rightarrow> string \<Rightarrow> jsval \<Rightarrow> hid \<Rightarrow> emission \<Rightarrow> emission" where
  "invoke bodies event data callback em =
     (let b = bodies callback data;
          em1 = em\<lparr>invoked := invoked em @ [callback],
                    registry := foldl apply_effect (registry em) (effects b)\<rparr>
      in case throws b of
           None \<Rightarrow> em1
         | Some error \<Rightarrow> em1\<lparr>console_error := console_error em1 @ [(event, error)]\<rparr>)"

text \<open>
  \<open>Array.prototype.forEach\<close>: the length is read once, before the first call; then for
  each index \<open>k\<close> below it, the element at \<open>k\<close> of the array as it is at that moment is
  passed to the callback, if the array still has an index \<open>k\<close>. \<open>forEach k n\<close> has \<open>n\<close>
  indices left to visit, starting at \<open>k\<close>.
\<close>

fun forEach :: "listeners \<Rightarrow> string \<Rightarrow> jsval \<Rightarrow> nat \<Rightarrow> nat \<Rightarrow> emission \<Rightarrow> emission" where
  "forEach bodies event data k 0 em = em"
| "forEach bodies event data k (Suc n) em =
     (case registry em event of
        None \<Rightarrow> forEach bodies event data (Suc k) n em
      | Some hs \<Rightarrow>
          (if k < length hs
           then forEach bodies event data (Suc k) n (invoke bodies event data (hs ! k) em)
           else forEach bodies event data (Suc k) n em))"

definition emit :: "listeners \<Rightarrow> string \<Rightarrow> jsval \<Rightarrow> emission \<Rightarrow> emission" where
  "emit bodies event data em =
     (case registry em event of
        None \<Rightarrow> em
      | Some hs \<Rightarrow> forEach bodies event data 0 (length hs) em)"


section \<open>What the process does that can be observed\<close>

text \<open>
  One chronological trace holds the effects the properties below are about: the request
  handler being invoked, a document written to standard output (always as
  \<open>JSON.stringify(doc) + '\n'\<close> in one \<open>write\<close>), a record handed to the diagnostic
  sink, a message posted to the parent thread, and a promise rejecting with nobody to
  handle it (that of an \<open>async\<close> \<open>stdin\<close> callback, or that of the \<open>catch\<close> callback in
  \<open>handleExternalRequest\<close>). The runner's own \<open>logInfo\<close>/\<open>logDebug\<close>/\<open>logError\<close>
  lines go to the log file only and are left out of the trace; where building such a
  line can throw, the throw is modelled.
\<close>

datatype obs =
    Call hid jsval
  | Written jsval
  | Logged string string
  | Posted jsval
  | Unhandled jsval

fun written :: "obs list \<Rightarrow> jsval list" where
  "written [] = []"
| "written (Written d # tr) = d # written tr"
| "written (x # tr) = written tr"

text \<open>
  \<open>send\<close> of the main file. \<open>parentPort\<close> is non-null exactly in a worker thread. The
  first component is the exception \<open>send\<close> throws into the plugin, if any:
  \<open>JSON.stringify(data).substring(0, 200)\<close> fails when \<open>JSON.stringify\<close> returns
  \<open>undefined\<close>.
\<close>

definition send :: "bool \<Rightarrow> string \<Rightarrow> jsval \<Rightarrow> obs list \<Rightarrow> jsval option \<times> obs list" where
  "send parentPort event data tr =
     (let msg = Obj [(''event'', Str event), (''data'', data)]
      in if parentPort then (None, tr @ [Posted msg])
         else if event = ''inited'' then (None, tr @ [Written msg])
         else (case stringify data of
                 None \<Rightarrow> (Some (cannot_read Undefined ''substring''), tr)
               | Some text \<Rightarrow>
                   (None, tr @ [Logged ''DEBUG''
                      (''[LX Plugin Event] '' @ event @ '': '' @ take 200 text)])))"

text \<open>\<open>send\<close> of the variant file: no filter.\<close>

definition variant_send :: "bool \<Rightarrow> string \<Rightarrow> jsval \<Rightarrow> obs list \<Rightarrow> jsval option \<times> obs list" where
  "variant_send parentPort event data tr =
     (let msg = Obj [(''event'', Str event), (''data'', data)]
      in if parentPort then (None, tr @ [Posted msg])
         else (None, tr @ [Written msg]))"

section \<open>The request dispatcher\<close>

text \<open>
  The environment is what the source does not contain: \<open>JSON.parse\<close> (\<open>Inl\<close> is the
  exception it throws) and the request handler the plugin registered. A call of the
  handler returns a plain value, throws, or returns a promise that is settled later;
  the handler may answer differently each time, so it is also given the number of the
  inbound message it is called for.
\<close>

datatype outcome = Fulfilled jsval | Rejected jsval

datatype returned = Returns jsval | Throws jsval | Thenable

record env =
  JSON_parse :: "string \<Rightarrow> jsval + jsval"
  handler :: "hid \<Rightarrow> nat \<Rightarrow> jsval \<Rightarrow> returned"

text \<open>
  The closure variables of the \<open>stdin\<close> callback (\<open>buffer\<close>, \<open>messageCount\<close>), the
  registry, and the callbacks that are suspended at an \<open>await\<close>: each waits for the
  handler's promise of one message, named by the message's number, and holds the
  message's \<open>id\<close>. \<open>stalled\<close> are the dispatches whose promise can no longer settle.
\<close>

record state =
  buffer :: string
  messageCount :: nat
  events :: registry
  pending :: "(nat \<times> jsval) list"
  stalled :: "nat list"
  trace :: "obs list"

datatype promise = Settled outcome | Awaiting

definition no_handler :: jsval where
  "no_handler = Err ''Error'' ''No request handler registered''"

text \<open>
  \<open>catch (error) { logError(`... ${error.message}`); throw error }\<close>: the exception that
  leaves the block. Reading \<open>message\<close> of \<open>undefined\<close> or \<open>null\<close> throws instead, and so
  does converting a \<open>message\<close> that has no string conversion.
\<close>

definition log_and_rethrow :: "jsval \<Rightarrow> jsval" where
  "log_and_rethrow error =
     (case property_text error ''message'' of Inl type_error \<Rightarrow> type_error | Inr t \<Rightarrow> error)"

text \<open>
  \<open>handleExternalRequest(action, source, info)\<close>. Its first statement logs
  \<open>`... ${action}, Source: ${source}, Info: ${JSON.stringify(info).substring(0, 200)}`\<close>:
  the conversion of \<open>source\<close> can throw, and \<open>substring\<close> throws when \<open>info\<close> is \<open>undefined\<close>
  (the callers pass object literals). An exception of the first statement leaves the
  function before the promise is made; every caller awaits the call inside a \<open>try\<close>
  block, where that is the same as a promise that rejects, so it is given as a
  rejection. Then the first handler registered for \<open>request\<close> is called with the action
  descriptor; a handler that throws is caught, logged and turned into a rejection (with
  the exception of the log line, when that throws inside the \<open>catch\<close> block).
\<close>

definition handleExternalRequest ::
    "env \<Rightarrow> string \<Rightarrow> jsval \<Rightarrow> jsval \<Rightarrow> state \<Rightarrow> promise \<times> state" where
  "handleExternalRequest env action source info s =
     (case to_str source of
        Inl type_error \<Rightarrow> (Settled (Rejected type_error), s)
      | Inr source_text \<Rightarrow>
     (case stringify info of
        None \<Rightarrow> (Settled (Rejected (cannot_read Undefined ''substring'')), s)
      | Some info_text \<Rightarrow>
     (case events s ''request'' of
        None \<Rightarrow> (Settled (Rejected no_handler), s)
      | Some [] \<Rightarrow> (Settled (Rejected no_handler), s)
      | Some (h # hs) \<Rightarrow>
          (let descriptor = Obj [(''action'', Str action), (''source'', source), (''info'', info)];
               s1 = s\<lparr>trace := trace s @ [Call h descriptor]\<rparr>
           in case handler env h (messageCount s) descriptor of
                Thenable \<Rightarrow> (Awaiting, s1)
              | Returns v \<Rightarrow> (Settled (Fulfilled v), s1)
              | Throws e \<Rightarrow> (Settled (Rejected (log_and_rethrow e)), s1)))))"

text \<open>
  How the handler's promise settles the promise of \<open>handleExternalRequest\<close>. The
  \<open>then\<close> callback logs \<open>JSON.stringify(result).substring(0, 300)\<close> before it resolves,
  and the \<open>catch\<close> callback logs \<open>`... ${error.message}`\<close> before it rejects; when the
  latter throws (the read of \<open>message\<close>, or its conversion), the outer promise is never
  settled (\<open>Inl\<close> is that exception).
\<close>

definition handler_settled :: "outcome \<Rightarrow> jsval + outcome" where
  "handler_settled out =
     (case out of
        Fulfilled result \<Rightarrow>
          (case stringify result of
             None \<Rightarrow> Inr (Rejected (cannot_read Undefined ''substring''))
           | Some text \<Rightarrow> Inr (Fulfilled result))
      | Rejected error \<Rightarrow>
          (case property_text error ''message'' of
             Inl type_error \<Rightarrow> Inl type_error
           | Inr t \<Rightarrow> Inr (Rejected error)))"

text \<open>
  Each of the six operations is an \<open>async\<close> method: a log line built from its arguments,
  then \<open>try { ... return await handleExternalRequest(...) }
  catch (error) { logError(...error.message...); throw error }\<close>. A parameter that has a
  default gets it when the argument is \<open>undefined\<close>. The log line stands before the \<open>try\<close>
  block: when the conversion of one of its substitutions throws, the method's promise
  rejects with that exception and the handler is not called. \<open>songName\<close> is
  \<open>musicItem?.name || 'Unknown'\<close>. \<open>awaited\<close> is what the \<open>catch\<close> block makes of an
  outcome. The guard \<open>if (!globalThis.lx || !globalThis.lx.events) throw ...\<close> at the head
  of the \<open>try\<close> block is never taken: \<open>globalThis.lx\<close> is assigned once, when the module is
  loaded, and the plugin is taken to act through \<open>on\<close>, \<open>send\<close> and its handlers only.
  \<open>getMediaSource\<close> logs \<open>options?.quality || '128k'\<close> and then reads \<open>options.quality\<close>
  inside the \<open>try\<close> block while it builds the descriptor, before the dispatch. The log
  lines after the \<open>await\<close> print a number, a constant or \<open>songName\<close> again, and do not
  throw.
\<close>

definition awaited :: "outcome \<Rightarrow> outcome" where
  "awaited out = (case out of Fulfilled v \<Rightarrow> Fulfilled v | Rejected e \<Rightarrow> Rejected (log_and_rethrow e))"

definition try_await :: "promise \<times> state \<Rightarrow> promise \<times> state" where
  "try_await r = (case r of (Settled out, s) \<Rightarrow> (Settled (awaited out), s) | (Awaiting, s) \<Rightarrow> (Awaiting, s))"

definition search ::
    "env \<Rightarrow> jsval \<Rightarrow> jsval \<Rightarrow> jsval \<Rightarrow> jsval \<Rightarrow> jsval \<Rightarrow> state \<Rightarrow> promise \<times> state" where
  "search env keyword page0 limit0 source0 options s =
     (let page = dflt (Num ''1'') page0; limit = dflt (Num ''30'') limit0;
          source = dflt (Str ''all'') source0
      in case template [keyword, page, limit, source] of
           Inl type_error \<Rightarrow> (Settled (Rejected type_error), s)
         | Inr texts \<Rightarrow>
             try_await (handleExternalRequest env ''search'' source
               (Obj [(''keyword'', keyword), (''page'', page), (''limit'', limit)]) s))"

definition getMediaSource ::
    "env \<Rightarrow> jsval \<Rightarrow> jsval \<Rightarrow> jsval \<Rightarrow> state \<Rightarrow> promise \<times> state" where
  "getMediaSource env musicItem source0 options0 s =
     (let source = dflt (Str ''all'') source0; options = dflt (Obj []) options0;
          songName = or_else (optional musicItem ''name'') (Str ''Unknown'')
      in case template [songName, source, or_else (optional options ''quality'') (Str ''128k'')] of
           Inl type_error \<Rightarrow> (Settled (Rejected type_error), s)
         | Inr texts \<Rightarrow>
             (case get_prop options ''quality'' of
                Inl type_error \<Rightarrow> (Settled (awaited (Rejected type_error)), s)
              | Inr quality \<Rightarrow>
                  try_await (handleExternalRequest env ''musicUrl'' source
                    (Obj [(''musicInfo'', musicItem),
                          (''type'', or_else quality (Str ''128k''))]) s)))"

definition getLyric ::
    "env \<Rightarrow> jsval \<Rightarrow> jsval \<Rightarrow> jsval \<Rightarrow> state \<Rightarrow> promise \<times> state" where
  "getLyric env musicItem source0 options s =
     (let source = dflt (Str ''all'') source0;
          songName = or_else (optional musicItem ''name'') (Str ''Unknown'')
      in case template [songName, source] of
           Inl type_error \<Rightarrow> (Settled (Rejected type_error), s)
         | Inr texts \<Rightarrow>
             try_await (handleExternalRequest env ''lyric'' source
               (Obj [(''musicInfo'', musicItem)]) s))"

definition getAlbum ::
    "env \<Rightarrow> jsval \<Rightarrow> jsval \<Rightarrow> jsval \<Rightarrow> jsval \<Rightarrow> jsval \<Rightarrow> state \<Rightarrow> promise \<times> state" where
  "getAlbum env albumId page0 limit0 source0 options s =
     (let page = dflt (Num ''1'') page0; limit = dflt (Num ''30'') limit0;
          source = dflt (Str ''all'') source0
      in case template [albumId, page, limit, source] of
           Inl type_error \<Rightarrow> (Settled (Rejected type_error), s)
         | Inr texts \<Rightarrow>
             try_await (handleExternalRequest env ''album'' source
               (Obj [(''albumId'', albumId), (''page'', page), (''limit'', limit)]) s))"

definition getArtist ::
    "env \<Rightarrow> jsval \<Rightarrow> jsval \<Rightarrow> jsval \<Rightarrow> jsval \<Rightarrow> jsval \<Rightarrow> state \<Rightarrow> promise \<times> state" where
  "getArtist env artistId page0 limit0 source0 options s =
     (let page = dflt (Num ''1'') page0; limit = dflt (Num ''30'') limit0;
          source = dflt (Str ''all'') source0
      in case template [artistId, page, limit, source] of
           Inl type_error \<Rightarrow> (Settled (Rejected type_error), s)
         | Inr texts \<Rightarrow>
             try_await (handleExternalRequest env ''artist'' source
               (Obj [(''artistId'', artistId), (''page'', page), (''limit'', limit)]) s))"

definition getRecommend ::
    "env \<Rightarrow> jsval \<Rightarrow> jsval \<Rightarrow> jsval \<Rightarrow> jsval \<Rightarrow> jsval \<Rightarrow> state \<Rightarrow> promise \<times> state" where
  "getRecommend env musicItem page0 limit0 source0 options s =
     (let page = dflt (Num ''1'') page0; limit = dflt (Num ''30'') limit0;
          source = dflt (Str ''all'') source0;
          songName = or_else (optional musicItem ''name'') (Str ''Unknown'')
      in case template [songName, page, limit, source] of
           Inl type_error \<Rightarrow> (Settled (Rejected type_error), s)
         | Inr texts \<Rightarrow>
             try_await (handleExternalRequest env ''recommend'' source
               (Obj [(''musicInfo'', musicItem), (''page'', page), (''limit'', limit)]) s))"


section \<open>The stream protocol framer\<close>

definition response :: "jsval \<Rightarrow> jsval \<Rightarrow> jsval \<Rightarrow> jsval" where
  "response mid result error = Obj [(''id'', mid), (''result'', result), (''error'', error)]"

text \<open>
  What the \<open>default\<close> branch throws: \<open>new Error(`Unknown method: ${method}`)\<close>, or the
  exception of the conversion of \<open>method\<close>.
\<close>

definition unknown_method :: "jsval \<Rightarrow> jsval" where
  "unknown_method method =
     (case to_str method of
        Inl type_error \<Rightarrow> type_error
      | Inr t \<Rightarrow> Err ''Error'' (''Unknown method: '' @ t))"

text \<open>
  The \<open>switch (method)\<close> of the main file. The arguments \<open>params.keyword, params.page, ...\<close>
  are read before the operation is called; the first read throws when \<open>params\<close> is
  \<open>undefined\<close> or \<open>null\<close>, and when it does not throw neither do the others.
\<close>

definition dispatch :: "env \<Rightarrow> jsval \<Rightarrow> jsval \<Rightarrow> state \<Rightarrow> promise \<times> state" where
  "dispatch env method params s =
     (if method = Str ''search'' then
        (case get_prop params ''keyword'' of
           Inl type_error \<Rightarrow> (Settled (Rejected type_error), s)
         | Inr keyword \<Rightarrow>
             search env keyword (field params ''page'') (field params ''limit'')
               (field params ''source'') (field params ''options'') s)
      else if method = Str ''getMediaSource'' then
        (case get_prop params ''musicItem'' of
           Inl type_error \<Rightarrow> (Settled (Rejected type_error), s)
         | Inr musicItem \<Rightarrow>
             getMediaSource env musicItem (field params ''source'') (field params ''options'') s)
      else if method = Str ''getLyric'' then
        (case get_prop params ''musicItem'' of
           Inl type_error \<Rightarrow> (Settled (Rejected type_error), s)
         | Inr musicItem \<Rightarrow>
             getLyric env musicItem (field params ''source'') (field params ''options'') s)
      else if method = Str ''getAlbum'' then
        (case get_prop params ''albumId'' of
           Inl type_error \<Rightarrow> (Settled (Rejected type_error), s)
         | Inr albumId \<Rightarrow>
             getAlbum env albumId (field params ''page'') (field params ''limit'')
               (field params ''source'') (field params ''options'') s)
      else if method = Str ''getArtist'' then
        (case get_prop params ''artistId'' of
           Inl type_error \<Rightarrow> (Settled (Rejected type_error), s)
         | Inr artistId \<Rightarrow>
             getArtist env artistId (field params ''page'') (field params ''limit'')
               (field params ''source'') (field params ''options'') s)
      else if method = Str ''getRecommend'' then
        (case get_prop params ''musicItem'' of
           Inl type_error \<Rightarrow> (Settled (Rejected type_error), s)
         | Inr musicItem \<Rightarrow>
             getRecommend env musicItem (field params ''page'') (field params ''limit'')
               (field params ''source'') (field params ''options'') s)
      else (Settled (Rejected (unknown_method method)), s))"

text \<open>
  The outer \<open>catch (e)\<close> of the \<open>stdin\<close> callback logs \<open>`... ${e.message}`\<close> and then builds
  \<open>{ id: message ? message.id : null, result: null, error: e.message }\<close>. \<open>message\<close> is a
  \<open>const\<close> of the \<open>try\<close> block and is not in scope here, so evaluating it throws a
  \<open>ReferenceError\<close> (when the log line has not thrown already): nothing is written, the
  exception leaves the \<open>async\<close> callback, and its promise rejects. What Node does with
  the unhandled rejection (a warning, or ending the process) is the runtime's policy; the
  trace records the rejection and the model goes on, so that every real run is a run of
  the model or a prefix of one.
\<close>

definition reference_error :: jsval where
  "reference_error = Err ''ReferenceError'' ''message is not defined''"

definition outer_catch :: "jsval \<Rightarrow> state \<Rightarrow> state" where
  "outer_catch e s =
     s\<lparr>trace := trace s @
         [Unhandled (case property_text e ''message'' of
                       Inl type_error \<Rightarrow> type_error
                     | Inr t \<Rightarrow> reference_error)]\<rparr>"

text \<open>
  Where one turn of the \<open>while\<close> loop ends: \<open>Continue\<close> goes on with the next line,
  \<open>Leave\<close> leaves the callback (suspended at an \<open>await\<close>, or by an exception).
\<close>

datatype flow = Continue state | Leave state

text \<open>
  From the outcome of the dispatch to the response object: \<open>let result; let error = null\<close>,
  then \<open>result\<close> is assigned on success and the inner \<open>catch (e) { error = e.message; ... }\<close>
  runs on failure. \<open>Inl\<close> is the exception that reading \<open>e.message\<close> throws.
\<close>

definition reply :: "jsval \<Rightarrow> outcome \<Rightarrow> jsval + jsval" where
  "reply mid out =
     (case out of
        Fulfilled v \<Rightarrow> Inr (response mid v Null)
      | Rejected e \<Rightarrow>
          (case get_prop e ''message'' of
             Inl type_error \<Rightarrow> Inl type_error
           | Inr m \<Rightarrow> Inr (response mid Undefined m)))"

text \<open>
  The second statement of the inner \<open>catch\<close> block is
  \<open>logError(`[Main] Method ${method} failed: ${error}`)\<close>, with \<open>error\<close> the \<open>e.message\<close>
  just read: the exception it throws, if any. The conversion of \<open>method\<close> has succeeded
  before, in the log line at the head of the \<open>try\<close> block; that of \<open>error\<close> can throw. On
  success the log line prints \<open>method\<close> and a duration.
\<close>

fun failure_log :: "outcome \<Rightarrow> jsval option" where
  "failure_log (Fulfilled v) = None"
| "failure_log (Rejected e) =
     (case to_str (field e ''message'') of Inl type_error \<Rightarrow> Some type_error | Inr t \<Rightarrow> None)"

text \<open>
  The end of a turn: the inner \<open>catch\<close> block on failure, then the write of the response;
  an exception of the inner \<open>catch\<close> block goes to the outer one.
\<close>

definition respond :: "jsval \<Rightarrow> outcome \<Rightarrow> state \<Rightarrow> flow" where
  "respond mid out s =
     (case reply mid out of
        Inl type_error \<Rightarrow> Leave (outer_catch type_error s)
      | Inr doc \<Rightarrow>
          (case failure_log out of
             Some type_error \<Rightarrow> Leave (outer_catch type_error s)
           | None \<Rightarrow> Continue (s\<lparr>trace := trace s @ [Written doc]\<rparr>)))"

text \<open>
  \<open>const { id, method, params } = message\<close> throws this \<open>TypeError\<close> when \<open>message\<close> is
  \<open>null\<close> (or \<open>undefined\<close>).
\<close>

definition cannot_destructure :: "jsval \<Rightarrow> jsval" where
  "cannot_destructure v =
     Err ''TypeError''
       (''Cannot destructure property '' @ [apostrophe] @ ''id'' @ [apostrophe] @ '' of ''
        @ [apostrophe] @ ''message'' @ [apostrophe] @ '' as it is ''
        @ (if v = Null then ''null'' else ''undefined'') @ ''.'')"

text \<open>
  One non-blank line: the counter, \<open>JSON.parse\<close>, the destructuring, the log line
  \<open>`[Main] Processing method: ${method}, ID: ${id}`\<close>, whose conversions can throw, and
  the dispatch. All of it is inside the outer \<open>try\<close> block.
\<close>

definition process_line :: "env \<Rightarrow> string \<Rightarrow> state \<Rightarrow> flow" where
  "process_line env line s0 =
     (let s = s0\<lparr>messageCount := Suc (messageCount s0)\<rparr>
      in case JSON_parse env line of
           Inl e \<Rightarrow> Leave (outer_catch e s)
         | Inr message \<Rightarrow>
             if nullish message then Leave (outer_catch (cannot_destructure message) s)
             else
               (let mid = field message ''id''; method = field message ''method'';
                    params = field message ''params''
                in case template [method, mid] of
                     Inl type_error \<Rightarrow> Leave (outer_catch type_error s)
                   | Inr texts \<Rightarrow>
                       (case dispatch env method params s of
                          (Settled out, s1) \<Rightarrow> respond mid out s1
                        | (Awaiting, s1) \<Rightarrow>
                            Leave (s1\<lparr>pending := pending s1 @ [(messageCount s1, mid)]\<rparr>))))"

definition newline :: char where
  "newline = CHR 0x0A"

definition whitespace :: "char \<Rightarrow> bool" where
  "whitespace c \<longleftrightarrow>
     c \<in> set [CHR 0x09, CHR 0x0A, CHR 0x0B, CHR 0x0C, CHR 0x0D, CHR 0x20, CHR 0xA0]"

definition trim :: "string \<Rightarrow> string" where
  "trim s = rev (dropWhile whitespace (rev (dropWhile whitespace s)))"

lemma handleExternalRequest_buffer:
  "handleExternalRequest env action source info s = (p, s') \<Longrightarrow> buffer s' = buffer s"
  by (auto simp: handleExternalRequest_def Let_def
           split: sum.splits option.splits list.splits returned.splits)

lemma try_await_buffer:
  "try_await (handleExternalRequest env action source info s) = (p, s') \<Longrightarrow> buffer s' = buffer s"
  by (cases "handleExternalRequest env action source info s")
     (auto simp: try_await_def split: promise.splits dest: handleExternalRequest_buffer)

lemma dispatch_buffer: "dispatch env method params s = (p, s') \<Longrightarrow> buffer s' = buffer s"
  by (auto simp: dispatch_def search_def getMediaSource_def getLyric_def getAlbum_def
                 getArtist_def getRecommend_def Let_def
           split: if_splits sum.splits dest: try_await_buffer)

lemma respond_buffer: "respond mid out s = Continue s' \<Longrightarrow> buffer s' = buffer s"
  by (auto simp: respond_def split: sum.splits option.splits)

lemma process_line_buffer: "process_line env line s = Continue s' \<Longrightarrow> buffer s' = buffer s"
  by (auto simp: process_line_def Let_def
           split: sum.splits prod.splits promise.splits if_splits
           dest!: dispatch_buffer respond_buffer)

lemma indexOf_range: "indexOf xs x \<noteq> - 1 \<Longrightarrow> 0 \<le> indexOf xs x \<and> indexOf xs x < int (length xs)"
  by (induction xs) (auto simp: Let_def split: if_splits)

text \<open>
  The \<open>while\<close> loop of the \<open>stdin\<close> callback, from the test of its condition to the
  point where the callback is left.
\<close>

function loop :: "env \<Rightarrow> state \<Rightarrow> state" where
  "loop env s =
     (let newlineIndex = indexOf (buffer s) newline
      in if newlineIndex \<noteq> - 1
         then (let line = take (nat newlineIndex) (buffer s);
                   s1 = s\<lparr>buffer := drop (nat newlineIndex + 1) (buffer s)\<rparr>
               in if trim line = [] then loop env s1
                  else (case process_line env line s1 of
                          Continue s2 \<Rightarrow> loop env s2
                        | Leave s2 \<Rightarrow> s2))
         else s)"
  by pat_completeness auto
termination
proof (relation "measure (\<lambda>(env, s). length (buffer s))")
  show "wf (measure (\<lambda>(env, s). length (buffer s)))" by simp
next
  fix env :: env and s :: state and x xa xb
  assume "x = indexOf (buffer s) newline" "x \<noteq> - 1"
    and "xb = s\<lparr>buffer := drop (nat x + 1) (buffer s)\<rparr>"
  then show "((env, xb), env, s) \<in> measure (\<lambda>(env, s). length (buffer s))"
    using indexOf_range[of "buffer s" newline] by auto
next
  fix env :: env and s :: state and x xa xb x1
  assume "x = indexOf (buffer s) newline" "x \<noteq> - 1"
    and "xb = s\<lparr>buffer := drop (nat x + 1) (buffer s)\<rparr>"
    and "process_line env xa xb = Continue x1"
  then show "((env, x1), env, s) \<in> measure (\<lambda>(env, s). length (buffer s))"
    using indexOf_range[of "buffer s" newline] process_line_buffer[of env xa xb x1] by auto
qed

declare loop.simps [simp del]


section \<open>The event loop\<close>

text \<open>
  What can happen between two turns of the event loop: a chunk arrives on standard
  input; the plugin settles the promise its handler returned for message \<open>n\<close>; plugin
  code running from a timer or a network callback registers a listener or calls
  \<open>send\<close>. Everything the runner does in reaction runs to the next \<open>await\<close> on a promise
  that is still pending: the continuation of an \<open>await\<close> on a settled promise is a
  microtask, and microtasks run before the next chunk is delivered.
\<close>

datatype event =
    Data string
  | Settle nat outcome
  | PluginOn string hid
  | PluginSend string jsval

text \<open>
  The callback suspended for message \<open>n\<close> wakes up: the outcome passes the
  \<open>then\<close>/\<open>catch\<close> callbacks of \<open>handleExternalRequest\<close> and the \<open>catch\<close> block of the
  operation, and the response is written. A settlement of a promise nobody waits for
  changes nothing.
\<close>

definition wake :: "nat \<Rightarrow> outcome \<Rightarrow> state \<Rightarrow> flow" where
  "wake n out s =
     (case map_of (pending s) n of
        None \<Rightarrow> Leave s
      | Some mid \<Rightarrow>
          (let s1 = s\<lparr>pending := filter (\<lambda>p. fst p \<noteq> n) (pending s)\<rparr>
           in case handler_settled out of
                Inl type_error \<Rightarrow>
                  Leave (s1\<lparr>stalled := stalled s1 @ [n],
                             trace := trace s1 @ [Unhandled type_error]\<rparr>)
              | Inr out1 \<Rightarrow> respond mid (awaited out1) s1))"

text \<open>After the response the \<open>while\<close> loop continues on the shared buffer.\<close>

definition resume :: "env \<Rightarrow> nat \<Rightarrow> outcome \<Rightarrow> state \<Rightarrow> state" where
  "resume env n out s =
     (case wake n out s of
        Continue s2 \<Rightarrow> loop env s2
      | Leave s2 \<Rightarrow> s2)"

fun step :: "env \<Rightarrow> state \<Rightarrow> event \<Rightarrow> state" where
  "step env s (Data data) = loop env (s\<lparr>buffer := buffer s @ data\<rparr>)"
| "step env s (Settle n out) = resume env n out s"
| "step env s (PluginOn event callback) = s\<lparr>events := on event callback (events s)\<rparr>"
| "step env s (PluginSend event data) = s\<lparr>trace := snd (send False event data (trace s))\<rparr>"

definition run :: "env \<Rightarrow> state \<Rightarrow> event list \<Rightarrow> state" where
  "run env s evs = foldl (step env) s evs"

section \<open>Loading the plugin and starting up\<close>

text \<open>
  The top level of the plugin script, as far as the runner can see it: the calls of
  \<open>on\<close> and \<open>send\<close> it makes, in order, and the exception it ends with, if any. A file
  that cannot be read or compiled makes no call and raises.
\<close>

datatype api_call = CallOn string hid | CallSend string jsval

record plugin =
  calls :: "api_call list"
  raises :: "jsval option"

fun execute :: "api_call list \<Rightarrow> state \<Rightarrow> jsval option \<times> state" where
  "execute [] s = (None, s)"
| "execute (CallOn event callback # cs) s = execute cs (s\<lparr>events := on event callback (events s)\<rparr>)"
| "execute (CallSend event data # cs) s =
     (case send False event data (trace s) of
        (Some error, tr) \<Rightarrow> (Some error, s\<lparr>trace := tr\<rparr>)
      | (None, tr) \<Rightarrow> execute cs (s\<lparr>trace := tr\<rparr>))"

text \<open>
  The \<open>catch (error)\<close> block of \<open>loadPlugin\<close> logs \<open>`... ${error.message}`\<close> and
  \<open>`... ${error.stack}`\<close> and returns \<open>false\<close> (\<open>parentPort\<close> is \<open>null\<close> in the main thread).
  When a log line throws, the exception leaves the \<open>async\<close> method and its promise
  rejects: \<open>Inl\<close> is that rejection, \<open>Inr\<close> the value the promise is fulfilled with.
\<close>

definition load_caught :: "jsval \<Rightarrow> jsval + bool" where
  "load_caught error =
     (case property_text error ''message'' of
        Inl type_error \<Rightarrow> Inl type_error
      | Inr message_text \<Rightarrow>
          (case property_text error ''stack'' of
             Inl type_error \<Rightarrow> Inl type_error
           | Inr stack_text \<Rightarrow> Inr False))"

definition loadPlugin :: "plugin \<Rightarrow> state \<Rightarrow> (jsval + bool) \<times> state" where
  "loadPlugin code s =
     (case execute (calls code) s of
        (Some error, s1) \<Rightarrow> (load_caught error, s1)
      | (None, s1) \<Rightarrow>
          (case raises code of Some error \<Rightarrow> (load_caught error, s1) | None \<Rightarrow> (Inr True, s1)))"

definition start :: state where
  "start = \<lparr>buffer = [], messageCount = 0, events = Map.empty, pending = [], stalled = [],
            trace = []\<rparr>"

definition initResponse :: jsval where
  "initResponse = response Null (Obj [(''initialized'', Bool True)]) Null"

definition load_failed :: jsval where
  "load_failed = response Null Null (Str ''Failed to load plugin'')"

text \<open>
  The main thread, up to the point where it waits for input. The argument is the plugin
  named by \<open>process.argv[2]\<close>, \<open>None\<close> when the argument is missing. On a failed load the
  error response is written and the process exits with code 1. When the promise of
  \<open>loadPlugin\<close> rejects, the \<open>catch\<close> callback logs \<open>`... ${error.message}`\<close>, writes
  \<open>{ id: null, result: null, error: error.message }\<close> and exits with code 1; if its log
  line throws, the promise of the callback rejects with nobody to handle it and the
  runner does nothing more.
\<close>

datatype process = Running state | Exited nat "obs list" | Abandoned "obs list"

definition main :: "plugin option \<Rightarrow> process" where
  "main pluginPath =
     (case pluginPath of
        None \<Rightarrow> Exited 1 []
      | Some code \<Rightarrow>
          (case loadPlugin code start of
             (Inr success, s) \<Rightarrow>
               if success then Running (s\<lparr>trace := trace s @ [Written initResponse]\<rparr>)
               else Exited 1 (trace s @ [Written load_failed])
           | (Inl error, s) \<Rightarrow>
               (case property_text error ''message'' of
                  Inl type_error \<Rightarrow> Abandoned (trace s @ [Unhandled type_error])
                | Inr t \<Rightarrow>
                    Exited 1 (trace s @ [Written (response Null Null (field error ''message''))]))))"

section \<open>The variant file\<close>









section \<open>Vocabulary of the properties\<close>

text \<open>An effect that takes a listener out of the list of \<open>event\<close>.\<close>

fun removes_from :: "string \<Rightarrow> effect \<Rightarrow> bool" where
  "removes_from event (Unregister e h) = (e = event)"
| "removes_from event (Register e h) = False"

text \<open>No callback of \<open>hs\<close> removes a listener of \<open>event\<close> when it is called with \<open>data\<close>.\<close>

definition keeps_listeners :: "listeners \<Rightarrow> string \<Rightarrow> jsval \<Rightarrow> hid list \<Rightarrow> bool" where
  "keeps_listeners bodies event data hs =
     list_all (\<lambda>h. list_all (\<lambda>e. \<not> removes_from event e) (effects (bodies h data))) hs"

text \<open>The \<open>console.error\<close> lines an emission over \<open>hs\<close> prints: one for each callback that throws.\<close>

definition caught :: "listeners \<Rightarrow> string \<Rightarrow> jsval \<Rightarrow> hid list \<Rightarrow> (string \<times> jsval) list" where
  "caught bodies event data hs =
     concat (map (\<lambda>h. case throws (bodies h data) of
                          None \<Rightarrow> []
                        | Some error \<Rightarrow> [(event, error)]) hs)"

text \<open>A document of the shape \<open>{id, result, error}\<close>, and the ids of such documents.\<close>

definition is_response :: "jsval \<Rightarrow> bool" where
  "is_response d =
     (case d of
        Obj [(k1, x), (k2, r), (k3, e)] \<Rightarrow> k1 = ''id'' \<and> k2 = ''result'' \<and> k3 = ''error''
      | _ \<Rightarrow> False)"

definition response_ids :: "jsval list \<Rightarrow> jsval list" where
  "response_ids docs = map (\<lambda>d. field d ''id'') (filter is_response docs)"

text \<open>
  Exactly one of \<open>result\<close> and \<open>error\<close> is non-null. A field that is \<open>undefined\<close> is not
  written by \<open>JSON.stringify\<close>; the reader finds no value there, and it counts as null.
\<close>

definition exactly_one :: "jsval \<Rightarrow> bool" where
  "exactly_one d \<longleftrightarrow> nullish (field d ''result'') \<noteq> nullish (field d ''error'')"


text \<open>A value that has a conversion to string.\<close>

definition printable :: "jsval \<Rightarrow> bool" where
  "printable v = (case to_str v of Inl type_error \<Rightarrow> False | Inr t \<Rightarrow> True)"








text \<open>A handler value that is not null, and a failure that carries a string message.\<close>

definition has_message :: "jsval \<Rightarrow> bool" where
  "has_message e = (case get_prop e ''message'' of Inr (Str m) \<Rightarrow> True | _ \<Rightarrow> False)"

fun proper_outcome :: "outcome \<Rightarrow> bool" where
  "proper_outcome (Fulfilled v) = (\<not> nullish v)"
| "proper_outcome (Rejected e) = has_message e"

fun proper_return :: "returned \<Rightarrow> bool" where
  "proper_return (Returns v) = (\<not> nullish v)"
| "proper_return (Throws e) = has_message e"
| "proper_return Thenable = True"

fun proper_event :: "event \<Rightarrow> bool" where
  "proper_event (Settle n out) = proper_outcome out"
| "proper_event ev = True"

text \<open>An error object, as the runner itself creates them and as \<open>v.p\<close> throws.\<close>

fun is_error :: "jsval \<Rightarrow> bool" where
  "is_error (Err n m) = True"
| "is_error v = False"

text \<open>
  What the promise of \<open>handleExternalRequest\<close> is once the handler has returned, and what a
  dispatch comes to: it is rejected with an error before the handler is called, or
  the handler is called once.
\<close>

fun promise_of :: "returned \<Rightarrow> promise" where
  "promise_of (Returns v) = Settled (Fulfilled v)"
| "promise_of (Throws e) = Settled (Rejected (log_and_rethrow e))"
| "promise_of Thenable = Awaiting"

definition dispatched :: "env \<Rightarrow> state \<Rightarrow> promise \<times> state \<Rightarrow> bool" where
  "dispatched env s r \<longleftrightarrow>
     (\<exists>e. is_error e \<and> r = (Settled (Rejected e), s))
     \<or> (\<exists>h d. r = (promise_of (handler env h (messageCount s) d),
                     s\<lparr>trace := trace s @ [Call h d]\<rparr>))"

text \<open>The state a turn of the loop ends in, however it ends.\<close>

fun state_of :: "flow \<Rightarrow> state" where
  "state_of (Continue s) = s"
| "state_of (Leave s) = s"

text \<open>
  An invariant of the stream, relative to the trace \<open>tr0\<close> the run began with: every
  document written since satisfies \<open>Q\<close>, and the id every suspended callback holds
  satisfies \<open>okid\<close>. It is kept when the ids of the inbound messages satisfy \<open>okid\<close>,
  the outcomes of the dispatches satisfy \<open>okout\<close>, and a response built from such an id
  and such an outcome satisfies \<open>Q\<close>.
\<close>

definition sound :: "env \<Rightarrow> (jsval \<Rightarrow> bool) \<Rightarrow> (outcome \<Rightarrow> bool) \<Rightarrow> (jsval \<Rightarrow> bool) \<Rightarrow> bool" where
  "sound env okid okout Q \<longleftrightarrow>
     (\<forall>line m x. JSON_parse env line = Inr m \<longrightarrow> get_prop m ''id'' = Inr x \<longrightarrow> okid x)
   \<and> (\<forall>mid out d. okid mid \<longrightarrow> okout out \<longrightarrow> reply mid out = Inr d \<longrightarrow> Q d)
   \<and> (\<forall>e. is_error e \<longrightarrow> okout (Rejected e))
   \<and> (\<forall>h n d v. handler env h n d = Returns v \<longrightarrow> okout (Fulfilled v))
   \<and> (\<forall>h n d e. handler env h n d = Throws e \<longrightarrow> okout (Rejected (log_and_rethrow e)))
   \<and> (\<forall>data. Q (Obj [(''event'', Str ''inited''), (''data'', data)]))"

definition answers :: "(jsval \<Rightarrow> bool) \<Rightarrow> (jsval \<Rightarrow> bool) \<Rightarrow> obs list \<Rightarrow> state \<Rightarrow> bool" where
  "answers okid Q tr0 s \<longleftrightarrow>
     prefix tr0 (trace s)
   \<and> list_all Q (written (drop (length tr0) (trace s)))
   \<and> list_all (\<lambda>p. okid (snd p)) (pending s)"






section \<open>Example inputs\<close>

text \<open>Three listeners on \<open>search\<close>, registered in the order 1, 2, 3.\<close>

definition three_listeners :: emission where
  "three_listeners =
     \<lparr>registry = Map.empty(''search'' \<mapsto> [1, 2, 3]), invoked = [], console_error = []\<rparr>"

text \<open>Listener 1 is a one-shot listener: it takes itself out of the list when it runs.\<close>

definition first_removes_itself :: listeners where
  "first_removes_itself h data =
     (if h = 1 then \<lparr>effects = [Unregister ''search'' 1], throws = None\<rparr>
      else \<lparr>effects = [], throws = None\<rparr>)"

text \<open>Listener 1 registers a fourth listener on the same event when it runs.\<close>

definition first_registers_another :: listeners where
  "first_registers_another h data =
     (if h = 1 then \<lparr>effects = [Register ''search'' 4], throws = None\<rparr>
      else \<lparr>effects = [], throws = None\<rparr>)"

text \<open>Listener 2 throws.\<close>

definition second_throws :: listeners where
  "second_throws h data =
     (if h = 2 then \<lparr>effects = [], throws = Some (Err ''Error'' ''boom'')\<rparr>
      else \<lparr>effects = [], throws = None\<rparr>)"

text \<open>Listener 2 takes listener 3 out of the list and then throws.\<close>

definition second_removes_third :: listeners where
  "second_removes_third h data =
     (if h = 2 then \<lparr>effects = [Unregister ''search'' 3], throws = Some (Err ''Error'' ''boom'')\<rparr>
      else \<lparr>effects = [], throws = None\<rparr>)"

text \<open>
  Four requests and a line that is not JSON, and what \<open>JSON.parse\<close> makes of them. The
  third request has \<open>null\<close> for its \<open>options\<close>; the keyword of the fourth is an object
  with a property \<open>toString\<close>.
\<close>

definition line1 :: string where
  \<open>line1 = ''{"id":1,"method":"search","params":{"keyword":"abc"}}''\<close>

definition line2 :: string where
  \<open>line2 = ''{"id":2,"method":"getLyric","params":{"musicItem":{}}}''\<close>

definition line3 :: string where
  \<open>line3 = ''{"id":3,"method":"getMediaSource","params":{"musicItem":{},"options":null}}''\<close>

definition line4 :: string where
  \<open>line4 = ''{"id":4,"method":"search","params":{"keyword":{"toString":1}}}''\<close>

definition bad_line :: string where
  "bad_line = ''not json''"

definition message1 :: jsval where
  "message1 = Obj [(''id'', Num ''1''), (''method'', Str ''search''),
                   (''params'', Obj [(''keyword'', Str ''abc'')])]"

definition message2 :: jsval where
  "message2 = Obj [(''id'', Num ''2''), (''method'', Str ''getLyric''),
                   (''params'', Obj [(''musicItem'', Obj [])])]"

definition message3 :: jsval where
  "message3 = Obj [(''id'', Num ''3''), (''method'', Str ''getMediaSource''),
                   (''params'', Obj [(''musicItem'', Obj []), (''options'', Null)])]"

definition message4 :: jsval where
  "message4 = Obj [(''id'', Num ''4''), (''method'', Str ''search''),
                   (''params'', Obj [(''keyword'', Obj [(''toString'', Num ''1'')])])]"

definition example_parse :: "string \<Rightarrow> jsval + jsval" where
  "example_parse l =
     (if l = line1 then Inr message1
      else if l = line2 then Inr message2
      else if l = line3 then Inr message3
      else if l = line4 then Inr message4
      else Inl (Err ''SyntaxError'' ''Unexpected token o in JSON at position 1''))"

text \<open>
  Three plugins: one whose handler always returns a promise, one whose handler returns a
  list at once, one whose handler returns \<open>null\<close>.
\<close>

definition slow_env :: env where
  "slow_env = \<lparr>JSON_parse = example_parse, handler = (\<lambda>h n d. Thenable)\<rparr>"

definition quick_env :: env where
  "quick_env = \<lparr>JSON_parse = example_parse, handler = (\<lambda>h n d. Returns (Arr [Str ''song'']))\<rparr>"

definition null_env :: env where
  "null_env = \<lparr>JSON_parse = example_parse, handler = (\<lambda>h n d. Returns Null)\<rparr>"

text \<open>
  A plugin that registers its request handler and reports its sources, and the state
  the runner is in once it has loaded it; a plugin that registers nothing.
\<close>

definition sources :: jsval where
  "sources = Obj [(''sources'', Obj [])]"

definition example_plugin :: plugin where
  "example_plugin = \<lparr>calls = [CallOn ''request'' 7, CallSend ''inited'' sources], raises = None\<rparr>"

definition ready :: state where
  "ready =
     \<lparr>buffer = [], messageCount = 0, events = Map.empty(''request'' \<mapsto> [7]), pending = [],
      stalled = [],
      trace = [Written (Obj [(''event'', Str ''inited''), (''data'', sources)]),
               Written initResponse]\<rparr>"

definition silent_plugin :: plugin where
  "silent_plugin = \<lparr>calls = [], raises = None\<rparr>"


section \<open>The shape of a dispatch, and invariants of the loop\<close>

lemma written_append: "written (xs @ ys) = written xs @ written ys"
  by (induction xs rule: written.induct) simp_all

lemma is_error_cannot_read: "is_error (cannot_read v p)"
  by (simp add: cannot_read_def)

lemma is_error_cannot_convert: "is_error cannot_convert"
  by (simp add: cannot_convert_def)

lemma get_prop_Inl_error: "get_prop v p = Inl e \<Longrightarrow> is_error e"
  by (cases v) (auto simp: is_error_cannot_read)

lemma get_prop_field: "get_prop v p = Inr x \<longleftrightarrow> \<not> nullish v \<and> field v p = x"
  by (cases v) (auto simp: nullish_def field_def)

lemma optional_field: "optional v p = field v p"
  by (cases v) (simp_all add: optional_def nullish_def field_def)

lemma collect_Inl: "collect rs = Inl e \<Longrightarrow> Inl e \<in> set rs"
proof (induction rs)
  case Nil
  then show ?case by simp
next
  case (Cons r rs)
  then show ?case by (cases r) (auto split: sum.splits)
qed


lemma to_str_Inl: "to_str v = Inl e \<Longrightarrow> e = cannot_convert"
proof (induction v arbitrary: e rule: to_str.induct)
  case (6 xs)
  from "6.prems" have "collect (map (\<lambda>x. if nullish x then Inr [] else to_str x) xs) = Inl e"
    by (simp split: sum.splits)
  then have "Inl e \<in> set (map (\<lambda>x. if nullish x then Inr [] else to_str x) xs)"
    by (rule collect_Inl)
  then obtain x where "x \<in> set xs" "\<not> nullish x" "to_str x = Inl e"
    by (auto split: if_splits)
  then show ?case by (rule "6.IH")
next
  case (7 kvs)
  then show ?case by (simp split: if_splits)
qed simp_all

lemma to_str_Inl_error: "to_str v = Inl e \<Longrightarrow> is_error e"
  by (auto dest: to_str_Inl simp: is_error_cannot_convert)

lemma template_Inl_error: "template vs = Inl e \<Longrightarrow> is_error e"
proof -
  assume "template vs = Inl e"
  then have "Inl e \<in> set (map to_str vs)" unfolding template_def by (rule collect_Inl)
  then obtain v where "to_str v = Inl e" by auto
  then show ?thesis by (rule to_str_Inl_error)
qed



lemma printable_template: "template vs = Inr ts \<Longrightarrow> list_all printable vs"
proof (induction vs arbitrary: ts)
  case Nil
  then show ?case by simp
next
  case (Cons v vs)
  then show ?case
    by (cases "to_str v") (auto simp: template_def printable_def split: sum.splits)
qed

lemma property_text_Inl_error: "property_text v p = Inl e \<Longrightarrow> is_error e"
  by (auto simp: property_text_def split: sum.splits
           dest: get_prop_Inl_error to_str_Inl_error)



lemma log_and_rethrow_error: "is_error e \<Longrightarrow> log_and_rethrow e = e"
  by (cases e) (simp_all add: log_and_rethrow_def property_text_def)

lemma log_and_rethrow_cases:
  obtains (kept) t where "property_text e ''message'' = Inr t" "log_and_rethrow e = e"
  | (replaced) "is_error (log_and_rethrow e)"
proof (cases "property_text e ''message''")
  case (Inl type_error)
  then have "is_error (log_and_rethrow e)"
    by (simp add: log_and_rethrow_def property_text_Inl_error)
  then show ?thesis by (rule replaced)
next
  case (Inr t)
  then show ?thesis by (intro kept[of t]) (simp_all add: log_and_rethrow_def)
qed

lemma log_and_rethrow_idem: "log_and_rethrow (log_and_rethrow e) = log_and_rethrow e"
proof (cases e rule: log_and_rethrow_cases)
  case (kept t)
  then show ?thesis by simp
next
  case replaced
  then show ?thesis by (rule log_and_rethrow_error)
qed


lemma try_await_promise_of: "try_await (promise_of r, s) = (promise_of r, s)"
  by (cases r) (simp_all add: try_await_def awaited_def log_and_rethrow_idem)

lemma try_await_error:
  "is_error e \<Longrightarrow> try_await (Settled (Rejected e), s) = (Settled (Rejected e), s)"
  by (simp add: try_await_def awaited_def log_and_rethrow_error)

lemma rejected_dispatched: "is_error e \<Longrightarrow> dispatched env s (Settled (Rejected e), s)"
  unfolding dispatched_def by blast

lemma handleExternalRequest_dispatched:
  "dispatched env s (try_await (handleExternalRequest env action source info s))"
proof (cases "to_str source")
  case (Inl type_error)
  then have "is_error type_error" by (rule to_str_Inl_error)
  with Inl show ?thesis
    by (simp add: handleExternalRequest_def try_await_error rejected_dispatched)
next
  case (Inr source_text)
  note src = this
  show ?thesis
  proof (cases "stringify info")
    case None
    with src show ?thesis
      by (simp add: handleExternalRequest_def dispatched_def try_await_error is_error_cannot_read)
  next
    case (Some t)
    show ?thesis
    proof (cases "events s ''request''")
      case None
      with Some src show ?thesis
        by (simp add: handleExternalRequest_def dispatched_def try_await_error no_handler_def)
    next
      case (Some hs)
      note hs = this
      show ?thesis
      proof (cases hs)
        case Nil
        with hs src \<open>stringify info = Some t\<close> show ?thesis
          by (simp add: handleExternalRequest_def dispatched_def try_await_error no_handler_def)
      next
        case (Cons h rest)
        let ?d = "Obj [(''action'', Str action), (''source'', source), (''info'', info)]"
        let ?s1 = "s\<lparr>trace := trace s @ [Call h ?d]\<rparr>"
        from Cons hs src \<open>stringify info = Some t\<close>
        have "handleExternalRequest env action source info s
                = (promise_of (handler env h (messageCount s) ?d), ?s1)"
          by (cases "handler env h (messageCount s) ?d")
             (simp_all add: handleExternalRequest_def Let_def)
        then show ?thesis
          unfolding dispatched_def by (simp only: try_await_promise_of) blast
      qed
    qed
  qed
qed

lemma logged_dispatched:
  assumes "\<And>texts. template vs = Inr texts \<Longrightarrow> dispatched env s r"
  shows "dispatched env s
           (case template vs of
              Inl type_error \<Rightarrow> (Settled (Rejected type_error), s)
            | Inr texts \<Rightarrow> r)"
proof (cases "template vs")
  case (Inl type_error)
  then show ?thesis by (simp add: rejected_dispatched template_Inl_error)
next
  case (Inr texts)
  with assms show ?thesis by simp
qed

lemma search_dispatched: "dispatched env s (search env keyword page limit source options s)"
  unfolding search_def Let_def
  by (rule logged_dispatched) (rule handleExternalRequest_dispatched)

lemma getLyric_dispatched: "dispatched env s (getLyric env musicItem source options s)"
  unfolding getLyric_def Let_def
  by (rule logged_dispatched) (rule handleExternalRequest_dispatched)

lemma getAlbum_dispatched: "dispatched env s (getAlbum env albumId page limit source options s)"
  unfolding getAlbum_def Let_def
  by (rule logged_dispatched) (rule handleExternalRequest_dispatched)

lemma getArtist_dispatched: "dispatched env s (getArtist env artistId page limit source options s)"
  unfolding getArtist_def Let_def
  by (rule logged_dispatched) (rule handleExternalRequest_dispatched)

lemma getRecommend_dispatched:
  "dispatched env s (getRecommend env musicItem page limit source options s)"
  unfolding getRecommend_def Let_def
  by (rule logged_dispatched) (rule handleExternalRequest_dispatched)

lemma getMediaSource_dispatched:
  "dispatched env s (getMediaSource env musicItem source options s)"
  unfolding getMediaSource_def Let_def
proof (rule logged_dispatched)
  show "dispatched env s
     (case get_prop (dflt (Obj []) options) ''quality'' of
        Inl type_error \<Rightarrow> (Settled (awaited (Rejected type_error)), s)
      | Inr quality \<Rightarrow>
          try_await (handleExternalRequest env ''musicUrl'' (dflt (Str ''all'') source)
            (Obj [(''musicInfo'', musicItem), (''type'', or_else quality (Str ''128k''))]) s))"
  proof (cases "get_prop (dflt (Obj []) options) ''quality''")
    case (Inl e)
    then have "is_error e" by (rule get_prop_Inl_error)
    with Inl show ?thesis
      by (simp add: awaited_def log_and_rethrow_error rejected_dispatched)
  next
    case (Inr q)
    then show ?thesis by (simp add: handleExternalRequest_dispatched)
  qed
qed

lemma is_error_unknown_method: "is_error (unknown_method method)"
  by (cases "to_str method") (simp_all add: unknown_method_def to_str_Inl_error)

lemma dispatch_dispatched: "dispatched env s (dispatch env method params s)"
proof -
  have r: "dispatched env s (Settled (Rejected e), s)" if "get_prop params p = Inl e" for p e
    using that by (intro rejected_dispatched get_prop_Inl_error)
  have u: "dispatched env s (Settled (Rejected (unknown_method method)), s)"
    by (rule rejected_dispatched) (rule is_error_unknown_method)
  show ?thesis
    unfolding dispatch_def
    by (simp add: r u search_dispatched getLyric_dispatched getAlbum_dispatched
          getArtist_dispatched getRecommend_dispatched getMediaSource_dispatched
          split: sum.split)
qed

lemma loop_rule:
  assumes run: "Run s"
    and exit: "\<And>s. Run s \<Longrightarrow> indexOf (buffer s) newline = - 1 \<Longrightarrow> Out s"
    and blank: "\<And>s i. Run s \<Longrightarrow> indexOf (buffer s) newline = int i
                 \<Longrightarrow> trim (take i (buffer s)) = []
                 \<Longrightarrow> Run (s\<lparr>buffer := drop (Suc i) (buffer s)\<rparr>)"
    and cont: "\<And>s i s2. Run s \<Longrightarrow> indexOf (buffer s) newline = int i
                 \<Longrightarrow> trim (take i (buffer s)) \<noteq> []
                 \<Longrightarrow> process_line env (take i (buffer s))
                       (s\<lparr>buffer := drop (Suc i) (buffer s)\<rparr>) = Continue s2
                 \<Longrightarrow> Run s2"
    and leave: "\<And>s i s2. Run s \<Longrightarrow> indexOf (buffer s) newline = int i
                 \<Longrightarrow> trim (take i (buffer s)) \<noteq> []
                 \<Longrightarrow> process_line env (take i (buffer s))
                       (s\<lparr>buffer := drop (Suc i) (buffer s)\<rparr>) = Leave s2
                 \<Longrightarrow> Out s2"
  shows "Out (loop env s)"
  using assms
proof (induction env s rule: loop.induct)
  case (1 env s)
  note run = "1.prems"(1) and exit = "1.prems"(2) and blank = "1.prems"(3)
    and cont = "1.prems"(4) and leave = "1.prems"(5)
  show ?case
  proof (cases "indexOf (buffer s) newline = - 1")
    case True
    then have "loop env s = s" by (subst loop.simps) simp
    with exit[OF run True] show ?thesis by simp
  next
    case False
    with indexOf_range[of "buffer s" newline] obtain i where i: "indexOf (buffer s) newline = int i"
      by (metis nonneg_int_cases)
    let ?line = "take i (buffer s)"
    let ?s1 = "s\<lparr>buffer := drop (Suc i) (buffer s)\<rparr>"
    show ?thesis
    proof (cases "trim ?line = []")
      case True
      with False i have eq: "loop env s = loop env ?s1"
        by (subst loop.simps) (simp add: Let_def)
      have "Out (loop env ?s1)"
      proof (rule "1.IH"(1)[where x = "int i" and xa = ?line])
        show "Run ?s1" by (rule blank[OF run i True])
      qed ((rule exit blank cont leave; assumption) | (use i False True in simp))+
      then show ?thesis by (simp only: eq)
    next
      case nonblank: False
      show ?thesis
      proof (cases "process_line env ?line ?s1")
        case (Continue s2)
        with False i nonblank have eq: "loop env s = loop env s2"
          by (subst loop.simps) (simp add: Let_def)
        have "Out (loop env s2)"
        proof (rule "1.IH"(2)[where x = "int i" and xa = ?line and xb = ?s1])
          show "Run s2" by (rule cont[OF run i nonblank Continue])
        qed ((rule exit blank cont leave; assumption) | (use i False nonblank Continue in simp))+
        then show ?thesis by (simp only: eq)
      next
        case (Leave s2)
        with False i nonblank have eq: "loop env s = s2"
          by (subst loop.simps) (simp add: Let_def)
        from leave[OF run i nonblank Leave] show ?thesis by (simp only: eq)
      qed
    qed
  qed
qed

lemma answers_extend:
  assumes "answers okid Q tr0 s"
      and "list_all Q (written xs)"
      and "trace s' = trace s @ xs"
      and "list_all (\<lambda>p. okid (snd p)) (pending s')"
  shows "answers okid Q tr0 s'"
proof -
  from assms(1) obtain post where p: "trace s = tr0 @ post"
    by (auto simp: answers_def prefix_def)
  with assms show ?thesis
    by (simp add: answers_def written_append)
qed

lemma outer_catch_trace: "\<exists>u. trace (outer_catch e s) = trace s @ [Unhandled u]"
  by (simp add: outer_catch_def)

lemma outer_catch_answers:
  "answers okid Q tr0 s \<Longrightarrow> answers okid Q tr0 (outer_catch e s)"
proof -
  assume a: "answers okid Q tr0 s"
  obtain u where u: "trace (outer_catch e s) = trace s @ [Unhandled u]"
    using outer_catch_trace by blast
  from a show ?thesis
    by (rule answers_extend[where xs = "[Unhandled u]"])
       (use a u in \<open>simp_all add: answers_def outer_catch_def\<close>)
qed

lemma respond_cases:
  obtains (crash) e where "respond mid out s = Leave (outer_catch e s)"
  | (answer) d where "reply mid out = Inr d" "failure_log out = None"
      "respond mid out s = Continue (s\<lparr>trace := trace s @ [Written d]\<rparr>)"
proof (cases "reply mid out")
  case (Inl e)
  then have "respond mid out s = Leave (outer_catch e s)" by (simp add: respond_def)
  then show ?thesis by (rule crash)
next
  case (Inr d)
  show ?thesis
  proof (cases "failure_log out")
    case None
    with Inr have "respond mid out s = Continue (s\<lparr>trace := trace s @ [Written d]\<rparr>)"
      by (simp add: respond_def)
    with Inr None show ?thesis by (intro answer[of d])
  next
    case (Some e)
    with Inr have "respond mid out s = Leave (outer_catch e s)" by (simp add: respond_def)
    then show ?thesis by (rule crash)
  qed
qed

lemma respond_answers:
  assumes "answers okid Q tr0 s" and "\<And>d. reply mid out = Inr d \<Longrightarrow> Q d"
  shows "answers okid Q tr0 (state_of (respond mid out s))"
proof (cases mid out s rule: respond_cases)
  case (crash e)
  with outer_catch_answers[OF assms(1), of e] show ?thesis by simp
next
  case (answer d)
  have "answers okid Q tr0 (s\<lparr>trace := trace s @ [Written d]\<rparr>)"
    using assms(1)
    by (rule answers_extend[where xs = "[Written d]"])
       (use assms answer in \<open>simp_all add: answers_def\<close>)
  with answer show ?thesis by simp
qed

lemma dispatched_answers:
  assumes snd: "sound env okid okout Q"
      and a: "answers okid Q tr0 s"
      and mid: "okid mid"
      and d: "dispatched env s r"
  shows "answers okid Q tr0
           (state_of (case r of
                        (Settled out, s1) \<Rightarrow> respond mid out s1
                      | (Awaiting, s1) \<Rightarrow>
                          Leave (s1\<lparr>pending := pending s1 @ [(messageCount s1, mid)]\<rparr>)))"
proof -
  from d consider (err) e where "is_error e" "r = (Settled (Rejected e), s)"
    | (call) h x where "r = (promise_of (handler env h (messageCount s) x),
                             s\<lparr>trace := trace s @ [Call h x]\<rparr>)"
    unfolding dispatched_def by blast
  then show ?thesis
  proof cases
    case err
    from snd err(1) mid have "\<And>d. reply mid (Rejected e) = Inr d \<Longrightarrow> Q d"
      unfolding sound_def by blast
    from respond_answers[OF a this] err(2) show ?thesis by simp
  next
    case call
    let ?s1 = "s\<lparr>trace := trace s @ [Call h x]\<rparr>"
    have a1: "answers okid Q tr0 ?s1"
      by (rule answers_extend[OF a, where xs = "[Call h x]"]) (use a in \<open>simp_all add: answers_def\<close>)
    show ?thesis
    proof (cases "handler env h (messageCount s) x")
      case (Returns v)
      with snd mid have "\<And>d. reply mid (Fulfilled v) = Inr d \<Longrightarrow> Q d"
        unfolding sound_def by blast
      from respond_answers[OF a1 this] call Returns show ?thesis by simp
    next
      case (Throws e)
      with snd mid have "\<And>d. reply mid (Rejected (log_and_rethrow e)) = Inr d \<Longrightarrow> Q d"
        unfolding sound_def by blast
      from respond_answers[OF a1 this] call Throws show ?thesis by simp
    next
      case Thenable
      have "answers okid Q tr0 (?s1\<lparr>pending := pending ?s1 @ [(messageCount ?s1, mid)]\<rparr>)"
        by (rule answers_extend[OF a1, where xs = "[]"])
           (use a mid in \<open>simp_all add: answers_def\<close>)
      with call Thenable show ?thesis by simp
    qed
  qed
qed

text \<open>The ways a line can go.\<close>

lemma process_line_shape:
  fixes s :: state
  defines "s1 \<equiv> s\<lparr>messageCount := Suc (messageCount s)\<rparr>"
  obtains (unparsed) e where "JSON_parse env line = Inl e"
      "process_line env line s = Leave (outer_catch e s1)"
  | (nullish) m where "JSON_parse env line = Inr m" "nullish m"
      "process_line env line s = Leave (outer_catch (cannot_destructure m) s1)"
  | (unprintable) m e where "JSON_parse env line = Inr m" "\<not> nullish m"
      "template [field m ''method'', field m ''id''] = Inl e"
      "process_line env line s = Leave (outer_catch e s1)"
  | (dispatched) m where "JSON_parse env line = Inr m" "\<not> nullish m"
      "printable (field m ''method'')" "printable (field m ''id'')"
      "process_line env line s
         = (case dispatch env (field m ''method'') (field m ''params'') s1 of
              (Settled out, s2) \<Rightarrow> respond (field m ''id'') out s2
            | (Awaiting, s2) \<Rightarrow>
                Leave (s2\<lparr>pending := pending s2 @ [(messageCount s2, field m ''id'')]\<rparr>))"
proof (cases "JSON_parse env line")
  case (Inl e)
  then have "process_line env line s = Leave (outer_catch e s1)"
    by (simp add: process_line_def s1_def)
  with Inl show ?thesis by (rule unparsed)
next
  case (Inr m)
  show ?thesis
  proof (cases "nullish m")
    case True
    with Inr have "process_line env line s = Leave (outer_catch (cannot_destructure m) s1)"
      by (simp add: process_line_def s1_def)
    with Inr True show ?thesis by (rule nullish)
  next
    case False
    show ?thesis
    proof (cases "template [field m ''method'', field m ''id'']")
      case (Inl e)
      with Inr False have "process_line env line s = Leave (outer_catch e s1)"
        by (simp add: process_line_def s1_def Let_def)
      with Inr False Inl show ?thesis by (rule unprintable)
    next
      case texts: (Inr ts)
      from printable_template[OF texts]
      have p: "printable (field m ''method'')" "printable (field m ''id'')" by simp_all
      from Inr False texts have "process_line env line s
         = (case dispatch env (field m ''method'') (field m ''params'') s1 of
              (Settled out, s2) \<Rightarrow> respond (field m ''id'') out s2
            | (Awaiting, s2) \<Rightarrow>
                Leave (s2\<lparr>pending := pending s2 @ [(messageCount s2, field m ''id'')]\<rparr>))"
        by (simp add: process_line_def s1_def Let_def)
      with Inr False p show ?thesis by (rule dispatched)
    qed
  qed
qed

lemma process_line_answers:
  assumes snd: "sound env okid okout Q" and a: "answers okid Q tr0 s"
  shows "answers okid Q tr0 (state_of (process_line env line s))"
proof -
  let ?s = "s\<lparr>messageCount := Suc (messageCount s)\<rparr>"
  from a have a': "answers okid Q tr0 ?s" by (simp add: answers_def)
  show ?thesis
  proof (cases env line s rule: process_line_shape)
    case (unparsed e)
    with outer_catch_answers[OF a'] show ?thesis by simp
  next
    case (nullish m)
    with outer_catch_answers[OF a'] show ?thesis by simp
  next
    case (unprintable m e)
    with outer_catch_answers[OF a'] show ?thesis by simp
  next
    case (dispatched m)
    from dispatched(1,2) have "get_prop m ''id'' = Inr (field m ''id'')"
      by (simp add: get_prop_field)
    with snd dispatched(1) have "okid (field m ''id'')" unfolding sound_def by blast
    from dispatched_answers[OF snd a' this dispatch_dispatched] dispatched(5)
    show ?thesis by simp
  qed
qed

lemma loop_answers:
  assumes snd: "sound env okid okout Q" and a: "answers okid Q tr0 s"
  shows "answers okid Q tr0 (loop env s)"
proof (rule loop_rule[where Run = "answers okid Q tr0" and Out = "answers okid Q tr0", OF a])
  fix s i s2
  assume s: "answers okid Q tr0 s"
  let ?s1 = "s\<lparr>buffer := drop (Suc i) (buffer s)\<rparr>"
  from s have s1: "answers okid Q tr0 ?s1" by (simp add: answers_def)
  show "answers okid Q tr0 ?s1" by (rule s1)
  { assume "process_line env (take i (buffer s)) ?s1 = Continue s2"
    with process_line_answers[OF snd s1, of "take i (buffer s)"]
    show "answers okid Q tr0 s2" by simp }
  { assume "process_line env (take i (buffer s)) ?s1 = Leave s2"
    with process_line_answers[OF snd s1, of "take i (buffer s)"]
    show "answers okid Q tr0 s2" by simp }
qed

lemma map_of_pending:
  "map_of ps n = Some mid \<Longrightarrow> list_all (\<lambda>p. okid (snd p)) ps \<Longrightarrow> okid mid"
  by (induction ps) (auto split: if_splits)

lemma wake_answers:
  assumes snd: "sound env okid okout Q" and a: "answers okid Q tr0 s"
      and out: "\<And>out1. handler_settled out = Inr out1 \<Longrightarrow> okout (awaited out1)"
  shows "answers okid Q tr0 (state_of (wake n out s))"
proof (cases "map_of (pending s) n")
  case None
  with a show ?thesis by (simp add: wake_def)
next
  case (Some mid)
  let ?s1 = "s\<lparr>pending := filter (\<lambda>p. fst p \<noteq> n) (pending s)\<rparr>"
  from a Some have mid: "okid mid" by (auto simp: answers_def dest: map_of_pending)
  from a have a1: "answers okid Q tr0 ?s1"
    by (simp add: answers_def list_all_iff)
  show ?thesis
  proof (cases "handler_settled out")
    case (Inl e)
    have "answers okid Q tr0 (?s1\<lparr>stalled := stalled ?s1 @ [n], trace := trace ?s1 @ [Unhandled e]\<rparr>)"
      by (rule answers_extend[OF a1, where xs = "[Unhandled e]"]) (use a1 in \<open>simp_all add: answers_def\<close>)
    with Some Inl show ?thesis by (simp add: wake_def)
  next
    case (Inr out1)
    from snd mid out[OF Inr] have "\<And>d. reply mid (awaited out1) = Inr d \<Longrightarrow> Q d"
      unfolding sound_def by blast
    from respond_answers[OF a1 this] Some Inr show ?thesis by (simp add: wake_def)
  qed
qed

lemma step_answers:
  assumes snd: "sound env okid okout Q" and a: "answers okid Q tr0 s"
      and out: "\<And>n out out1. ev = Settle n out \<Longrightarrow> handler_settled out = Inr out1
                   \<Longrightarrow> okout (awaited out1)"
  shows "answers okid Q tr0 (step env s ev)"
proof (cases ev)
  case (Data d)
  from a have "answers okid Q tr0 (s\<lparr>buffer := buffer s @ d\<rparr>)" by (simp add: answers_def)
  from loop_answers[OF snd this] Data show ?thesis by simp
next
  case (Settle n o1)
  have w: "answers okid Q tr0 (state_of (wake n o1 s))"
    by (rule wake_answers[OF snd a]) (rule out[OF Settle])
  show ?thesis
  proof (cases "wake n o1 s")
    case (Continue s2)
    with w loop_answers[OF snd, of tr0 s2] Settle show ?thesis by (simp add: resume_def)
  next
    case (Leave s2)
    with w Settle show ?thesis by (simp add: resume_def)
  qed
next
  case (PluginOn e h)
  with a show ?thesis by (simp add: answers_def)
next
  case (PluginSend e d)
  from snd have q: "Q (Obj [(''event'', Str ''inited''), (''data'', d)])"
    unfolding sound_def by blast
  have "\<exists>xs. snd (send False e d (trace s)) = trace s @ xs \<and> list_all Q (written xs)"
  proof (cases "e = ''inited''")
    case True
    with q show ?thesis by (simp add: send_def)
  next
    case False
    then show ?thesis by (cases "stringify d") (simp_all add: send_def)
  qed
  then obtain xs where "snd (send False e d (trace s)) = trace s @ xs" "list_all Q (written xs)"
    by blast
  with answers_extend[OF a this(2), of "s\<lparr>trace := snd (send False e d (trace s))\<rparr>"] a PluginSend
  show ?thesis by (simp add: answers_def)
qed

lemma run_answers:
  assumes snd: "sound env okid okout Q" and a: "answers okid Q tr0 s"
      and out: "\<And>n out out1. Settle n out \<in> set evs \<Longrightarrow> handler_settled out = Inr out1
                   \<Longrightarrow> okout (awaited out1)"
  shows "answers okid Q tr0 (run env s evs)"
  using out
proof (induction evs rule: rev_induct)
  case Nil
  from a show ?case by (simp add: run_def)
next
  case (snoc ev evs)
  have "answers okid Q tr0 (run env s evs)" by (rule snoc.IH) (use snoc.prems in auto)
  then have "answers okid Q tr0 (step env (run env s evs) ev)"
    by (rule step_answers[OF snd]) (use snoc.prems in auto)
  then show ?case by (simp add: run_def)
qed

section \<open>Emission\<close>

lemma apply_effect_keeps:
  assumes "\<not> removes_from event e" "reg event = Some (hs @ xs)"
  shows "\<exists>ys. apply_effect reg e event = Some (hs @ ys)"
  using assms
  by (cases e) (auto simp: on_def remove_listener_def Let_def split: option.splits)

lemma effects_keep:
  assumes "\<forall>e \<in> set es. \<not> removes_from event e" "reg event = Some (hs @ xs)"
  shows "\<exists>ys. foldl apply_effect reg es event = Some (hs @ ys)"
  using assms
proof (induction es arbitrary: reg xs)
  case Nil then show ?case by simp
next
  case (Cons e es)
  from Cons.prems obtain ys where "apply_effect reg e event = Some (hs @ ys)"
    using apply_effect_keeps[of event e reg hs xs] by auto
  with Cons show ?case by auto
qed

lemma invoke_invoked: "invoked (invoke bodies event data h em) = invoked em @ [h]"
  by (simp add: invoke_def Let_def split: option.splits)

lemma invoke_console_error:
  "console_error (invoke bodies event data h em) = console_error em @ caught bodies event data [h]"
  by (simp add: invoke_def Let_def caught_def split: option.splits)

lemma invoke_registry:
  "registry (invoke bodies event data h em) = foldl apply_effect (registry em) (effects (bodies h data))"
  by (simp add: invoke_def Let_def split: option.splits)


lemma forEach_without_removal:
  assumes "\<forall>h \<in> set hs. \<forall>e \<in> set (effects (bodies h data)). \<not> removes_from event e"
      and "registry em event = Some (hs @ xs)"
      and "k + n = length hs"
  shows "invoked (forEach bodies event data k n em) = invoked em @ drop k hs
       \<and> console_error (forEach bodies event data k n em)
           = console_error em @ caught bodies event data (drop k hs)"
  using assms(2,3)
proof (induction n arbitrary: k em xs)
  case 0
  then show ?case by (simp add: caught_def)
next
  case (Suc n)
  let ?em = "invoke bodies event data (hs ! k) em"
  from Suc.prems have k: "k < length hs" by simp
  then have nth: "(hs @ xs) ! k = hs ! k" by (simp add: nth_append)
  from k assms(1) have "\<forall>e \<in> set (effects (bodies (hs ! k) data)). \<not> removes_from event e"
    using nth_mem by blast
  then obtain ys where reg: "registry ?em event = Some (hs @ ys)"
    using effects_keep[where reg = "registry em" and event = event and hs = hs and xs = xs
        and es = "effects (bodies (hs ! k) data)"] Suc.prems(1)
    by (auto simp: invoke_registry)
  from Suc.prems have "Suc k + n = length hs" by simp
  from Suc.IH[OF reg this]
  have "invoked (forEach bodies event data (Suc k) n ?em) = invoked em @ hs ! k # drop (Suc k) hs"
    and "console_error (forEach bodies event data (Suc k) n ?em)
           = console_error em @ caught bodies event data (hs ! k # drop (Suc k) hs)"
    by (simp_all add: invoke_invoked invoke_console_error caught_def)
  with k nth Suc.prems(1) show ?case
    by (simp add: Cons_nth_drop_Suc)
qed

lemma emit_keeps_order:
  assumes "registry em event = Some hs"
      and "keeps_listeners bodies event data hs"
  shows "invoked (emit bodies event data em) = invoked em @ hs"
    and "console_error (emit bodies event data em)
           = console_error em @ caught bodies event data hs"
  using forEach_without_removal[of hs bodies data event em "[]" 0 "length hs"] assms
  by (simp_all add: emit_def keeps_listeners_def list_all_iff)

text \<open>
  Claim C5 says that \<open>emit\<close> works on a snapshot of the handler list, so that the handlers
  invoked are exactly those registered when the emission began, whatever the handlers
  register or remove meanwhile. \<open>emit\<close> calls \<open>forEach\<close> on the live array. With the
  listeners 1, 2, 3 registered and listener 1 removing itself, listener 2 moves to
  index 0, which has been visited, and is never called.
\<close>

theorem emit_live_array_counterexample:
  "registry three_listeners ''search'' = Some [1, 2, 3]
   \<and> invoked (emit first_removes_itself ''search'' Null three_listeners) = [1, 3]"
  by (simp add: three_listeners_def first_removes_itself_def emit_def invoke_def
        remove_listener_def splice1_def Let_def)

text \<open>
  Claim C5 as amended: in an emission during which no invoked handler removes a listener
  of the emitted event, the handlers invoked are exactly the handlers registered when
  the emission began, in registration order, even if handlers register listeners for
  the same event meanwhile.
\<close>

theorem emit_without_removal:
  assumes "registry em event = Some hs"
      and "keeps_listeners bodies event data hs"
  shows "invoked (emit bodies event data em) = invoked em @ hs"
  using assms by (rule emit_keeps_order)

theorem emit_without_removal_witness:
  "registry three_listeners ''search'' = Some [1, 2, 3]
   \<and> keeps_listeners first_registers_another ''search'' Null [1, 2, 3]
   \<and> invoked (emit first_registers_another ''search'' Null three_listeners) = [1, 2, 3]
   \<and> registry (emit first_registers_another ''search'' Null three_listeners) ''search''
        = Some [1, 2, 3, 4]"
proof -
  have r: "registry three_listeners ''search'' = Some [1, 2, 3]"
    by (simp add: three_listeners_def)
  have k: "keeps_listeners first_registers_another ''search'' Null [1, 2, 3]"
    by (simp add: keeps_listeners_def first_registers_another_def)
  have i: "invoked three_listeners = []" by (simp add: three_listeners_def)
  have g: "registry (emit first_registers_another ''search'' Null three_listeners) ''search''
        = Some [1, 2, 3, 4]"
    by (simp add: three_listeners_def first_registers_another_def emit_def invoke_def on_def Let_def)
  from emit_without_removal[where em = three_listeners and event = "''search''"
      and hs = "[1, 2, 3]" and bodies = first_registers_another and data = Null] r k i g show ?thesis by simp
qed

text \<open>
  Claim C9 says that with three handlers registered for an event name one emission
  invokes all three, once each and in registration order, also when the second throws.
  The exception of a handler is caught, but what the handler did to the live array
  before it threw stays done. With the listeners 1, 2, 3 registered and listener 2
  removing listener 3 before it throws, the array has no index 2 any more when
  \<open>forEach\<close> comes to it: the exception of listener 2 is reported, and listener 3 is
  never called.
\<close>

theorem emit_second_removes_third_counterexample:
  "registry three_listeners ''search'' = Some [1, 2, 3]
   \<and> throws (second_removes_third 2 Null) = Some (Err ''Error'' ''boom'')
   \<and> invoked (emit second_removes_third ''search'' Null three_listeners) = [1, 2]
   \<and> console_error (emit second_removes_third ''search'' Null three_listeners)
        = [(''search'', Err ''Error'' ''boom'')]"
  by (simp add: three_listeners_def second_removes_third_def emit_def invoke_def
        remove_listener_def splice1_def Let_def)

text \<open>
  Claim C9 as amended: with three handlers registered for an event name, none of which
  removes a listener of that event while it is being emitted, one emission invokes all
  three exactly once in registration order; a handler that throws is caught and
  reported by \<open>console.error\<close>, and the handlers after it still run.
\<close>

theorem emit_three_handlers:
  assumes "registry em event = Some [h1, h2, h3]"
      and "keeps_listeners bodies event data [h1, h2, h3]"
  shows "invoked (emit bodies event data em) = invoked em @ [h1, h2, h3]
       \<and> console_error (emit bodies event data em)
           = console_error em @ caught bodies event data [h1, h2, h3]"
  using emit_keeps_order[where em = em and event = event and hs = "[h1, h2, h3]"
      and bodies = bodies and data = data] assms
  by blast

theorem emit_three_handlers_witness:
  "registry three_listeners ''search'' = Some [1, 2, 3]
   \<and> keeps_listeners second_throws ''search'' Null [1, 2, 3]
   \<and> throws (second_throws 2 Null) = Some (Err ''Error'' ''boom'')
   \<and> invoked (emit second_throws ''search'' Null three_listeners) = [1, 2, 3]
   \<and> console_error (emit second_throws ''search'' Null three_listeners)
        = [(''search'', Err ''Error'' ''boom'')]"
proof -
  have r: "registry three_listeners ''search'' = Some [1, 2, 3]"
    by (simp add: three_listeners_def)
  have k: "keeps_listeners second_throws ''search'' Null [1, 2, 3]"
    by (simp add: keeps_listeners_def second_throws_def)
  have i: "invoked three_listeners = []" "console_error three_listeners = []"
    by (simp_all add: three_listeners_def)
  have c: "caught second_throws ''search'' Null [1, 2, 3] = [(''search'', Err ''Error'' ''boom'')]"
    by (simp add: caught_def second_throws_def)
  have t: "throws (second_throws 2 Null) = Some (Err ''Error'' ''boom'')"
    by (simp add: second_throws_def)
  from emit_three_handlers[where em = three_listeners and event = "''search''"
      and ?h1.0 = 1 and ?h2.0 = 2 and ?h3.0 = 3 and bodies = second_throws and data = Null]
    r k i c t show ?thesis by simp
qed

section \<open>The notifier\<close>

text \<open>
  Claim C8 says that \<open>send\<close> routes by event identity: \<open>inited\<close> goes to the protocol
  stream, every other event to the diagnostic sink and not to the protocol stream. The
  claim names the \<open>send\<close> of both files. The \<open>send\<close> of the variant file has no filter:
  outside a worker thread it writes every event to standard output.
\<close>

theorem variant_send_unfiltered_counterexample:
  "variant_send False ''search'' (Arr []) []
     = (None, [Written (Obj [(''event'', Str ''search''), (''data'', Arr [])])])"
  by (simp add: variant_send_def)

text \<open>
  Claim C8 as amended: in the main file, outside a worker thread, \<open>send\<close> writes the
  \<open>inited\<close> event to the protocol stream; for every other event name it writes nothing to
  the protocol stream, and when the data is not \<open>undefined\<close> it hands the message to the
  diagnostic sink at level DEBUG.
\<close>

theorem send_routes_by_event:
  "send False ''inited'' data tr
     = (None, tr @ [Written (Obj [(''event'', Str ''inited''), (''data'', data)])])
   \<and> (event \<noteq> ''inited'' \<longrightarrow> written (snd (send False event data tr)) = written tr)
   \<and> (event \<noteq> ''inited'' \<and> data \<noteq> Undefined \<longrightarrow>
        (\<exists>text. stringify data = Some text
           \<and> send False event data tr
               = (None, tr @ [Logged ''DEBUG''
                    (''[LX Plugin Event] '' @ event @ '': '' @ take 200 text)])))"
  by (auto simp: send_def written_append split: option.splits)

theorem send_routes_by_event_witness:
  "send False ''inited'' sources []
     = (None, [Written (Obj [(''event'', Str ''inited''), (''data'', sources)])])
   \<and> written (snd (send False ''search'' (Arr []) [])) = []
   \<and> send False ''search'' (Arr []) []
        = (None, [Logged ''DEBUG'' ''[LX Plugin Event] search: []''])"
  using send_routes_by_event[of sources "[]" "''search''"]
        send_routes_by_event[of "Arr []" "[]" "''search''"]
  by simp

section \<open>The operations the variant does not have\<close>






section \<open>A line that is not JSON\<close>

lemma process_line_unparsable:
  "JSON_parse env line = Inl e \<Longrightarrow>
   process_line env line s = Leave (outer_catch e (s\<lparr>messageCount := Suc (messageCount s)\<rparr>))"
  by (simp add: process_line_def)

lemma malformed_parse:
  "JSON_parse slow_env bad_line = Inl (Err ''SyntaxError'' ''Unexpected token o in JSON at position 1'')"
  by code_simp

lemma malformed_trace:
  "trace (run slow_env ready [Data (bad_line @ [newline] @ line2 @ [newline])])
     = trace ready @ [Unhandled reference_error]"
  by code_simp

lemma malformed_written:
  "written (trace (run slow_env ready [Data (bad_line @ [newline] @ line2 @ [newline])]))
     = written (trace ready)"
  by code_simp

lemma malformed_buffer:
  "buffer (run slow_env ready [Data (bad_line @ [newline] @ line2 @ [newline])])
     = line2 @ [newline]"
  by code_simp

text \<open>
  Claim C3 says that a line that is not valid JSON is answered with
  \<open>{id: null, result: null, error: ...}\<close> and that the lines after it are still served.
  The code at the line \<open>not json\<close>, followed by a well-formed request in the same chunk:
  the outer \<open>catch\<close> throws the \<open>ReferenceError\<close>, nothing is written for either line,
  the promise of the callback rejects, and the request stays in the buffer.
\<close>

theorem malformed_line_writes_nothing:
  "JSON_parse slow_env bad_line = Inl (Err ''SyntaxError'' ''Unexpected token o in JSON at position 1'')
   \<and> trace (run slow_env ready [Data (bad_line @ [newline] @ line2 @ [newline])])
       = trace ready @ [Unhandled reference_error]
   \<and> written (trace (run slow_env ready [Data (bad_line @ [newline] @ line2 @ [newline])]))
       = written (trace ready)
   \<and> buffer (run slow_env ready [Data (bad_line @ [newline] @ line2 @ [newline])])
       = line2 @ [newline]"
  by (intro conjI malformed_parse malformed_trace malformed_written malformed_buffer)

section \<open>No handler registered\<close>















section \<open>Start-up\<close>

lemma send_main_trace:
  "\<exists>xs. snd (send False e d tr) = tr @ xs \<and> list_all (\<lambda>x. \<not> is_response x) (written xs)"
proof (cases "e = ''inited''")
  case True
  then show ?thesis by (simp add: send_def is_response_def)
next
  case False
  then show ?thesis by (cases "stringify d") (simp_all add: send_def)
qed

lemma execute_quiet:
  "execute cs s = (r, s') \<Longrightarrow>
     buffer s' = buffer s \<and> messageCount s' = messageCount s \<and> pending s' = pending s
     \<and> stalled s' = stalled s
     \<and> (\<exists>xs. trace s' = trace s @ xs \<and> list_all (\<lambda>x. \<not> is_response x) (written xs))"
proof (induction cs s arbitrary: r s' rule: execute.induct)
  case (1 s)
  then show ?case by simp
next
  case (2 event callback cs s)
  from "2.IH"[of r s'] "2.prems" show ?case by simp
next
  case (3 event data cs s)
  obtain xs where xs: "snd (send False event data (trace s)) = trace s @ xs"
    "list_all (\<lambda>x. \<not> is_response x) (written xs)"
    using send_main_trace[of event data "trace s"] by blast
  show ?case
  proof (cases "send False event data (trace s)")
    case (Pair thrown tr)
    with xs have tr: "tr = trace s @ xs" by simp
    show ?thesis
    proof (cases thrown)
      case None
      with Pair "3.prems" have "execute cs (s\<lparr>trace := tr\<rparr>) = (r, s')" by simp
      from "3.IH"[OF Pair[symmetric] None this] obtain ys where
        "buffer s' = buffer s" "messageCount s' = messageCount s" "pending s' = pending s"
        "stalled s' = stalled s" "trace s' = tr @ ys"
        "list_all (\<lambda>x. \<not> is_response x) (written ys)"
        by auto
      with tr xs(2) show ?thesis by (simp add: written_append)
    next
      case (Some e)
      with Pair "3.prems" tr xs(2) show ?thesis by auto
    qed
  qed
qed

lemma main_running:
  assumes "main (Some code) = Running s0"
  shows "\<exists>pre. trace s0 = pre @ [Written initResponse]
           \<and> list_all (\<lambda>x. \<not> is_response x) (written pre)
           \<and> buffer s0 = [] \<and> messageCount s0 = 0 \<and> pending s0 = [] \<and> stalled s0 = []"
proof (cases "execute (calls code) start")
  case (Pair r s1)
  from execute_quiet[OF Pair] obtain xs where
    q: "buffer s1 = []" "messageCount s1 = 0" "pending s1 = []" "stalled s1 = []"
    "trace s1 = xs" "list_all (\<lambda>x. \<not> is_response x) (written xs)"
    by (auto simp: start_def)
  from assms Pair have "s0 = s1\<lparr>trace := trace s1 @ [Written initResponse]\<rparr>"
    by (auto simp: main_def loadPlugin_def split: option.splits if_splits sum.splits)
  with q show ?thesis by simp
qed


lemma field_response:
  "field (response mid r e) ''id'' = mid"
  "field (response mid r e) ''result'' = r"
  "field (response mid r e) ''error'' = e"
  by (simp_all add: field_def response_def)



lemma answers_trivial: "pending s = [] \<Longrightarrow> answers okid Q (trace s) s"
  by (simp add: answers_def)





lemma answers_post:
  assumes "answers okid Q (trace s) s'"
  shows "\<exists>post. written (trace s') = written (trace s) @ post \<and> list_all Q post"
proof -
  from assms obtain xs where "trace s' = trace s @ xs" "list_all Q (written xs)"
    by (auto simp: answers_def prefix_def)
  then show ?thesis by (auto simp: written_append)
qed


lemma main_example: "main (Some example_plugin) = Running ready"
  by (simp add: main_def loadPlugin_def example_plugin_def send_def start_def ready_def on_def)


section \<open>Responses carry the id of their request\<close>

lemma reply_rejected:
  "\<not> nullish e \<Longrightarrow> reply mid (Rejected e) = Inr (response mid Undefined (field e ''message''))"
  by (cases e) (simp_all add: reply_def field_def nullish_def)





















section \<open>Result and error\<close>

lemma has_message_text: "has_message e \<Longrightarrow> \<exists>t. property_text e ''message'' = Inr t"
  by (cases e) (auto simp: has_message_def property_text_def split: jsval.splits)

lemma has_message_rethrow: "has_message e \<Longrightarrow> log_and_rethrow e = e"
  by (auto simp: log_and_rethrow_def dest: has_message_text)

lemma has_message_not_nullish: "has_message e \<Longrightarrow> \<not> nullish e"
  by (cases e) (simp_all add: has_message_def nullish_def)

lemma has_message_field: "has_message e \<Longrightarrow> \<not> nullish (field e ''message'')"
  by (cases e) (auto simp: has_message_def field_def nullish_def split: jsval.splits)

lemma is_error_has_message: "is_error e \<Longrightarrow> has_message e"
  by (cases e) (simp_all add: has_message_def)

lemma exactly_one_response:
  "exactly_one (response mid r e) \<longleftrightarrow> nullish r \<noteq> nullish e"
  by (simp add: exactly_one_def field_response)

lemma proper_reply:
  assumes "proper_outcome out" and "reply mid out = Inr d"
  shows "exactly_one d"
proof (cases out)
  case (Fulfilled v)
  with assms show ?thesis by (auto simp: reply_def exactly_one_response nullish_def)
next
  case (Rejected e)
  with assms have h: "has_message e" by simp
  from reply_rejected[OF has_message_not_nullish[OF h], of mid] assms(2) Rejected
  have "d = response mid Undefined (field e ''message'')" by simp
  with has_message_field[OF h] show ?thesis by (simp add: exactly_one_response nullish_def)
qed

lemma proper_settled:
  assumes "proper_outcome out" and "handler_settled out = Inr out1"
  shows "proper_outcome (awaited out1)"
proof (cases out)
  case (Fulfilled v)
  with assms have "v \<noteq> Undefined" by (auto simp: nullish_def)
  then obtain t where "stringify v = Some t" by (cases v) auto
  with assms Fulfilled show ?thesis by (auto simp: handler_settled_def awaited_def)
next
  case (Rejected e)
  with assms have h: "has_message e" by simp
  from has_message_text[OF h] obtain t where "property_text e ''message'' = Inr t" ..
  with assms(2) Rejected have "out1 = Rejected e" by (simp add: handler_settled_def)
  with h show ?thesis by (simp add: awaited_def has_message_rethrow)
qed

lemma sound_xor:
  assumes "\<forall>h n d. proper_return (handler env h n d)"
  shows "sound env (\<lambda>x. True) proper_outcome (\<lambda>d. is_response d \<longrightarrow> exactly_one d)"
  unfolding sound_def
proof (intro conjI allI impI)
  fix mid out d assume "proper_outcome out" "reply mid out = Inr d"
  then show "exactly_one d" by (rule proper_reply)
next
  fix e assume "is_error e"
  then show "proper_outcome (Rejected e)" by (simp add: is_error_has_message)
next
  fix h n d v assume "handler env h n d = Returns v"
  with assms[rule_format, of h n d] show "proper_outcome (Fulfilled v)" by simp
next
  fix h n d e assume "handler env h n d = Throws e"
  with assms[rule_format, of h n d] show "proper_outcome (Rejected (log_and_rethrow e))"
    by (simp add: has_message_rethrow)
next
  fix data assume "is_response (Obj [(''event'', Str ''inited''), (''data'', data)])"
  then show "exactly_one (Obj [(''event'', Str ''inited''), (''data'', data)])"
    by (simp add: is_response_def)
qed simp_all

lemma exactly_one_initResponse: "exactly_one initResponse"
  by (simp add: initResponse_def exactly_one_response nullish_def)

lemma run_xor:
  assumes m: "main (Some code) = Running s0"
      and h: "\<forall>h n d. proper_return (handler env h n d)"
      and e: "list_all proper_event evs"
  shows "list_all exactly_one (filter is_response (written (trace (run env s0 evs))))"
proof -
  from main_running[OF m] obtain pre where
    p: "trace s0 = pre @ [Written initResponse]" "list_all (\<lambda>x. \<not> is_response x) (written pre)"
    and q: "pending s0 = []"
    by blast
  have "answers (\<lambda>x. True) (\<lambda>d. is_response d \<longrightarrow> exactly_one d) (trace s0) (run env s0 evs)"
  proof (rule run_answers[OF sound_xor[OF h] answers_trivial[OF q]])
    fix n out out1
    assume "Settle n out \<in> set evs" "handler_settled out = Inr out1"
    with e have "proper_outcome out" by (auto simp: list_all_iff)
    then show "proper_outcome (awaited out1)"
      by (rule proper_settled) fact
  qed
  from answers_post[OF this] obtain post where
    "written (trace (run env s0 evs)) = written (trace s0) @ post"
    "list_all (\<lambda>d. is_response d \<longrightarrow> exactly_one d) post" by blast
  with p show ?thesis
    by (auto simp: written_append list_all_iff exactly_one_initResponse)
qed

lemma null_result_output:
  "written (trace (run null_env ready [Data (line2 @ [newline])]))
     = written (trace ready) @ [response (Num ''2'') Null Null]"
  by code_simp

text \<open>
  Claim C2 says that in every message written exactly one of \<open>result\<close> and \<open>error\<close> is
  non-null. The response carries the handler's value as it is: a handler that returns
  \<open>null\<close> (no lyric found, say) gets the response \<open>{id: 2, result: null, error: null}\<close>.
\<close>

theorem null_result_counterexample:
  "written (trace (run null_env ready [Data (line2 @ [newline])]))
     = written (trace ready) @ [response (Num ''2'') Null Null]
   \<and> \<not> exactly_one (response (Num ''2'') Null Null)"
proof (intro conjI)
  show "\<not> exactly_one (response (Num ''2'') Null Null)"
    by (simp add: exactly_one_response)
qed (rule null_result_output)

text \<open>
  Claim C2 as amended: the readiness notification has a result and no error. On a
  successful dispatch \<open>result\<close> is the handler's value and \<open>error\<close> is null; on a failure
  \<open>result\<close> is \<open>undefined\<close> (the field is not written) and \<open>error\<close> is the \<open>message\<close> of what
  was thrown. So when the handler's values are not null and its failures carry a string
  message, exactly one of \<open>result\<close> and \<open>error\<close> is non-null in the readiness
  notification and in every response written, in any run.
\<close>

theorem result_xor_error:
  assumes "main (Some code) = Running s0"
      and "\<forall>h n d. proper_return (handler env h n d)"
      and "list_all proper_event evs"
  shows "exactly_one initResponse
       \<and> (\<forall>mid v. reply mid (Fulfilled v) = Inr (response mid v Null))
       \<and> (\<forall>mid e. \<not> nullish e \<longrightarrow>
             reply mid (Rejected e) = Inr (response mid Undefined (field e ''message'')))
       \<and> list_all exactly_one (filter is_response (written (trace (run env s0 evs))))"
proof (intro conjI allI impI)
  show "exactly_one initResponse" by (rule exactly_one_initResponse)
  show "reply mid (Fulfilled v) = Inr (response mid v Null)" for mid v
    by (simp add: reply_def)
  show "reply mid (Rejected e) = Inr (response mid Undefined (field e ''message''))"
    if "\<not> nullish e" for mid e
    using that by (rule reply_rejected)
  show "list_all exactly_one (filter is_response (written (trace (run env s0 evs))))"
    using assms by (rule run_xor)
qed

lemma quick_run_output:
  "written (trace (run quick_env ready [Data (line1 @ [newline] @ line2 @ [newline])]))
     = written (trace ready)
       @ [response (Num ''1'') (Arr [Str ''song'']) Null, response (Num ''2'') (Arr [Str ''song'']) Null]"
  by code_simp

theorem result_xor_error_witness:
  "main (Some example_plugin) = Running ready
   \<and> list_all proper_event [Data (line1 @ [newline] @ line2 @ [newline])]
   \<and> written (trace (run quick_env ready [Data (line1 @ [newline] @ line2 @ [newline])]))
       = written (trace ready)
         @ [response (Num ''1'') (Arr [Str ''song'']) Null, response (Num ''2'') (Arr [Str ''song'']) Null]
   \<and> list_all exactly_one (filter is_response
        (written (trace (run quick_env ready [Data (line1 @ [newline] @ line2 @ [newline])]))))"
proof -
  have h: "\<forall>h n d. proper_return (handler quick_env h n d)"
    by (simp add: quick_env_def nullish_def)
  have e: "list_all proper_event [Data (line1 @ [newline] @ line2 @ [newline])]" by simp
  from result_xor_error[OF main_example h e]
  have "list_all exactly_one (filter is_response
        (written (trace (run quick_env ready [Data (line1 @ [newline] @ line2 @ [newline])]))))"
    by (elim conjE)
  with main_example e quick_run_output show ?thesis by (intro conjI)
qed

section \<open>Order of service\<close>




lemma response_ids_Nil [simp]: "response_ids [] = []"
  by (simp add: response_ids_def)



















end
